theory Spec2Isabelle
  imports Main
begin

section \<open>JavaScript strings\<close>

text \<open>
  A JavaScript string is a sequence of UTF-16 code units.  A code unit is modelled as an
  integer (from 0 to 65535 in every string the program can hold); \<open>charCodeAt\<close> reads it
  and \<open>String.fromCharCode\<close> truncates its argument to 16 bits.
\<close>

type_synonym jsstring = "int list"

definition fromCharCode :: "int \<Rightarrow> jsstring" where
  "fromCharCode code = [code mod 65536]"

text \<open>\<open>char.charCodeAt(0)\<close>: \<open>None\<close> stands for \<open>NaN\<close>, the result on the empty string.\<close>

definition charCodeAt0 :: "jsstring \<Rightarrow> int option" where
  "charCodeAt0 char = (case char of [] \<Rightarrow> None | c # _ \<Rightarrow> Some c)"

text \<open>\<open>text[i]\<close>: a string of one code unit, or \<open>undefined\<close> (\<open>None\<close>) out of range.\<close>

definition charAt :: "jsstring \<Rightarrow> nat \<Rightarrow> jsstring option" where
  "charAt text i = (if i < length text then Some [text ! i] else None)"

fun startsWith :: "jsstring \<Rightarrow> jsstring \<Rightarrow> bool" where
  "startsWith s [] = True"
| "startsWith [] (p # ps) = False"
| "startsWith (c # s) (p # ps) = (c = p \<and> startsWith s ps)"

text \<open>\<open>s.includes(p)\<close>: \<open>p\<close> occurs in \<open>s\<close> as a substring.\<close>

fun includesStr :: "jsstring \<Rightarrow> jsstring \<Rightarrow> bool" where
  "includesStr [] p = (p = [])"
| "includesStr (c # s) p = (startsWith (c # s) p \<or> includesStr s p)"

text \<open>\<open>s.indexOf(p)\<close>: the first position where \<open>p\<close> occurs in \<open>s\<close>, or \<open>-1\<close>.\<close>

fun indexOfFrom :: "jsstring \<Rightarrow> jsstring \<Rightarrow> nat \<Rightarrow> int" where
  "indexOfFrom [] p k = (if p = [] then int k else - 1)"
| "indexOfFrom (c # s) p k = (if startsWith (c # s) p then int k else indexOfFrom s p (Suc k))"

definition indexOf :: "jsstring \<Rightarrow> jsstring \<Rightarrow> int" where
  "indexOf s p = indexOfFrom s p 0"

text \<open>\<open>s.substring(i, j)\<close> for \<open>i \<le> j\<close>, both clamped to the length of \<open>s\<close>.\<close>

definition substring :: "jsstring \<Rightarrow> nat \<Rightarrow> nat \<Rightarrow> jsstring" where
  "substring s i j = take (j - i) (drop i s)"

text \<open>
  \<open>s.replaceAll(key, v)\<close> with a string pattern: the occurrences of \<open>key\<close> are found from
  left to right without overlap and each is replaced by \<open>v\<close>; an empty pattern matches
  before every code unit and at the end.  (A replacement containing \<open>$\<close> would be
  expanded by JavaScript; no value of the dictionary contains one.)
\<close>

fun replaceAll :: "jsstring \<Rightarrow> jsstring \<Rightarrow> jsstring \<Rightarrow> jsstring" where
  "replaceAll s [] v = v @ concat (map (\<lambda>c. c # v) s)"
| "replaceAll [] (k # ks) v = []"
| "replaceAll (c # s) (k # ks) v =
     (if startsWith (c # s) (k # ks) then v @ replaceAll (drop (length ks) s) (k # ks) v
      else c # replaceAll s (k # ks) v)"

section \<open>Hangul jamo composition utilities\<close>

definition HANGUL_BASE :: int where
  "HANGUL_BASE = 0xAC00"

definition INITIAL_COUNT :: int where
  "INITIAL_COUNT = 19"

definition MEDIAL_COUNT :: int where
  "MEDIAL_COUNT = 21"

definition FINAL_COUNT :: int where
  "FINAL_COUNT = 28"

definition INITIALS :: jsstring where
  "INITIALS = [0x3131, 0x3132, 0x3134, 0x3137, 0x3138, 0x3139, 0x3141, 0x3142, 0x3143, 0x3145, 0x3146, 0x3147, 0x3148, 0x3149, 0x314A, 0x314B, 0x314C, 0x314D, 0x314E]"

definition MEDIALS :: jsstring where
  "MEDIALS = [0x314F, 0x3150, 0x3151, 0x3152, 0x3153, 0x3154, 0x3155, 0x3156, 0x3157, 0x3158, 0x3159, 0x315A, 0x315B, 0x315C, 0x315D, 0x315E, 0x315F, 0x3160, 0x3161, 0x3162, 0x3163]"

definition FINALS :: jsstring where
  "FINALS = [0x0000, 0x3131, 0x3132, 0x3133, 0x3134, 0x3135, 0x3136, 0x3137, 0x3139, 0x313A, 0x313B, 0x313C, 0x313D, 0x313E, 0x313F, 0x3140, 0x3141, 0x3142, 0x3144, 0x3145, 0x3146, 0x3147, 0x3148, 0x314A, 0x314B, 0x314C, 0x314D, 0x314E]"

definition isInitial :: "jsstring \<Rightarrow> bool" where
  "isInitial char = includesStr INITIALS char"

definition isMedial :: "jsstring \<Rightarrow> bool" where
  "isMedial char = includesStr MEDIALS char"

definition isFinal :: "jsstring \<Rightarrow> bool" where
  "isFinal char = (char \<noteq> [0] \<and> includesStr FINALS char)"

definition isHangulSyllable :: "jsstring \<Rightarrow> bool" where
  "isHangulSyllable char =
     (case charCodeAt0 char of None \<Rightarrow> False
      | Some code \<Rightarrow> code \<ge> HANGUL_BASE \<and> code \<le> HANGUL_BASE + 11171)"

record jamos =
  initial :: jsstring
  medial :: jsstring
  final :: jsstring

text \<open>
  \<open>decomposeHangul\<close>: \<open>None\<close> is the source's \<open>null\<close>.  The three indices are below 19, 21
  and 28 for a code in the syllable block, so the table reads are in range.
\<close>

definition decomposeHangul :: "jsstring \<Rightarrow> jamos option" where
  "decomposeHangul char =
     (case charCodeAt0 char of None \<Rightarrow> None
      | Some code \<Rightarrow>
          if code < HANGUL_BASE \<or> code > HANGUL_BASE + 11171 then None
          else
            let syllableIndex = code - HANGUL_BASE;
                initialIndex = syllableIndex div (MEDIAL_COUNT * FINAL_COUNT);
                medialIndex = (syllableIndex mod (MEDIAL_COUNT * FINAL_COUNT)) div FINAL_COUNT;
                finalIndex = syllableIndex mod FINAL_COUNT
            in Some \<lparr> initial = [INITIALS ! nat initialIndex],
                       medial = [MEDIALS ! nat medialIndex],
                       final = (if finalIndex = 0 then [] else [FINALS ! nat finalIndex]) \<rparr>)"

text \<open>\<open>composeHangulSyllable(initial, medial, final = '')\<close>.\<close>

definition composeHangulSyllable :: "jsstring \<Rightarrow> jsstring \<Rightarrow> jsstring \<Rightarrow> jsstring" where
  "composeHangulSyllable ini med fin =
     (let initialIndex = indexOf INITIALS ini;
          medialIndex = indexOf MEDIALS med;
          finalIndex = (if fin = [] then 0 else indexOf FINALS fin)
      in if initialIndex < 0 \<or> medialIndex < 0 \<or> finalIndex < 0 then ini @ med @ fin
         else fromCharCode (HANGUL_BASE
                + (initialIndex * MEDIAL_COUNT + medialIndex) * FINAL_COUNT
                + finalIndex))"

text \<open>
  The \<open>while\<close> loop of \<open>composeHangul\<close>, with its cursor \<open>i\<close> and its \<open>result\<close> array
  (kept joined).  A test \<open>nextChar && p(nextChar)\<close> is false when \<open>nextChar\<close> is
  \<open>undefined\<close>; a string of one code unit is always truthy.  \<open>None\<close> is the value of a
  loop that does not return.
\<close>

definition andDefined :: "jsstring option \<Rightarrow> (jsstring \<Rightarrow> bool) \<Rightarrow> bool" where
  "andDefined c p = (case c of None \<Rightarrow> False | Some s \<Rightarrow> s \<noteq> [] \<and> p s)"

partial_function (option) composeLoop :: "jsstring \<Rightarrow> nat \<Rightarrow> jsstring \<Rightarrow> jsstring option" where
  "composeLoop text i result =
     (if i < length text then
        let char = [text ! i] in
        if isHangulSyllable char then
          let nextChar = charAt text (i + 1) in
          if andDefined nextChar isFinal then
            let charAfterNext = charAt text (i + 2) in
            if andDefined charAfterNext isMedial then
              composeLoop text (i + 1) (result @ char)
            else
              (case decomposeHangul char of
                 Some decomposed \<Rightarrow>
                   if final decomposed = [] then
                     composeLoop text (i + 1 + 1)
                       (result @ composeHangulSyllable (initial decomposed) (medial decomposed)
                                   (the nextChar))
                   else composeLoop text (i + 1) (result @ char)
               | None \<Rightarrow> composeLoop text (i + 1) (result @ char))
          else composeLoop text (i + 1) (result @ char)
        else if isInitial char then
          let nextChar = charAt text (i + 1) in
          if andDefined nextChar isMedial then
            let thirdChar = charAt text (i + 2) in
            if andDefined thirdChar isFinal then
              let fourthChar = charAt text (i + 3) in
              if andDefined fourthChar isMedial then
                composeLoop text (i + 2)
                  (result @ composeHangulSyllable char (the nextChar) [])
              else
                composeLoop text (i + 3)
                  (result @ composeHangulSyllable char (the nextChar) (the thirdChar))
            else
              composeLoop text (i + 2)
                (result @ composeHangulSyllable char (the nextChar) [])
          else composeLoop text (i + 1) (result @ char)
        else composeLoop text (i + 1) (result @ char)
      else Some result)"

declare composeLoop.simps [code]

definition composeHangul :: "jsstring \<Rightarrow> jsstring option" where
  "composeHangul text = (if text = [] then Some [] else composeLoop text 0 [])"

text \<open>
  One iteration of that loop at the cursor \<open>i\<close>, as a value: the number of positions the
  cursor moves and the string pushed to \<open>result\<close>.  It is the loop body once more, used to
  reason about the loop (\<open>composeLoop_step\<close> below relates the two).
\<close>

definition composeStep :: "jsstring \<Rightarrow> nat \<Rightarrow> nat \<times> jsstring" where
  "composeStep text i =
     (let char = [text ! i] in
      if isHangulSyllable char then
        let nextChar = charAt text (i + 1) in
        if andDefined nextChar isFinal then
          let charAfterNext = charAt text (i + 2) in
          if andDefined charAfterNext isMedial then (1, char)
          else
            (case decomposeHangul char of
               Some decomposed \<Rightarrow>
                 if final decomposed = [] then
                   (2, composeHangulSyllable (initial decomposed) (medial decomposed) (the nextChar))
                 else (1, char)
             | None \<Rightarrow> (1, char))
        else (1, char)
      else if isInitial char then
        let nextChar = charAt text (i + 1) in
        if andDefined nextChar isMedial then
          let thirdChar = charAt text (i + 2) in
          if andDefined thirdChar isFinal then
            let fourthChar = charAt text (i + 3) in
            if andDefined fourthChar isMedial then
              (2, composeHangulSyllable char (the nextChar) [])
            else (3, composeHangulSyllable char (the nextChar) (the thirdChar))
          else (2, composeHangulSyllable char (the nextChar) [])
        else (1, char)
      else (1, char))"

section \<open>The dictionaries\<close>

text \<open>The word dictionary \<open>WORD_MAP\<close>, in the order of the object literal (no key occurs twice).\<close>

definition WORD_MAP :: "(jsstring \<times> jsstring) list" where
  "WORD_MAP = [
    ([0x3067, 0x3059, 0xFF01], [0xC785, 0xB2C8, 0xB2E4, 0x0021]),
    ([0x3067, 0x3059, 0x3002], [0xC785, 0xB2C8, 0xB2E4, 0x002E]),
    ([0x3067, 0x3059], []),
    ([0x307E, 0x3059, 0xFF01], [0xD569, 0xB2C8, 0xB2E4, 0x0021]),
    ([0x307E, 0x3059, 0x3002], [0xD569, 0xB2C8, 0xB2E4, 0x002E]),
    ([0x307E, 0x3059], []),
    ([0x306E, 0x7DBA, 0x9E97, 0x306A], [0x0020, 0xAE68, 0xB057, 0xD55C]),
    ([0x306E, 0x65BD, 0x8A2D], [0x0020, 0xC2DC, 0xC124]),
    ([0x306E], [0x0020]),
    ([0xFF5E], [0x007E]),
    ([0x4EE3, 0x3005, 0x6728], [0xC694, 0xC694, 0xAE30]),
    ([0x4EE3, 0x3005, 0x6728, 0x7AF6, 0x6280, 0x5834], [0xC694, 0xC694, 0xAE30, 0x0020, 0xACBD, 0xAE30, 0xC7A5]),
    ([0x539F, 0x5BBF], [0xD558, 0xB77C, 0xC8FC, 0xCFE0]),
    ([0x539F, 0x5BBF, 0x99C5], [0xD558, 0xB77C, 0xC8FC, 0xCFE0, 0xC5ED]),
    ([0x6E0B, 0x8C37], [0xC2DC, 0xBD80, 0xC57C]),
    ([0x6E0B, 0x8C37, 0x99C5], [0xC2DC, 0xBD80, 0xC57C, 0xC5ED]),
    ([0x65B0, 0x5BBF], [0xC2E0, 0xC8FC, 0xCFE0]),
    ([0x65B0, 0x5BBF, 0x99C5], [0xC2E0, 0xC8FC, 0xCFE0, 0xC5ED]),
    ([0x6C60, 0x888B], [0xC774, 0xCF00, 0xBD80, 0xCFE0, 0xB85C]),
    ([0x6C60, 0x888B, 0x99C5], [0xC774, 0xCF00, 0xBD80, 0xCFE0, 0xB85C, 0xC5ED]),
    ([0x9280, 0x5EA7], [0xAE34, 0xC790]),
    ([0x9280, 0x5EA7, 0x99C5], [0xAE34, 0xC790, 0xC5ED]),
    ([0x6771, 0x4EAC], [0xB3C4, 0xCFC4]),
    ([0x6771, 0x4EAC, 0x99C5], [0xB3C4, 0xCFC4, 0xC5ED]),
    ([0x54C1, 0x5DDD], [0xC2DC, 0xB098, 0xAC00, 0xC640]),
    ([0x54C1, 0x5DDD, 0x99C5], [0xC2DC, 0xB098, 0xAC00, 0xC640, 0xC5ED]),
    ([0x76EE, 0x9ED2], [0xBA54, 0xAD6C, 0xB85C]),
    ([0x76EE, 0x9ED2, 0x99C5], [0xBA54, 0xAD6C, 0xB85C, 0xC5ED]),
    ([0x6075, 0x6BD4, 0x5BFF], [0xC5D0, 0xBE44, 0xC2A4]),
    ([0x6075, 0x6BD4, 0x5BFF, 0x99C5], [0xC5D0, 0xBE44, 0xC2A4, 0xC5ED]),
    ([0x79CB, 0x8449, 0x539F], [0xC544, 0xD0A4, 0xD558, 0xBC14, 0xB77C]),
    ([0x79CB, 0x8449, 0x539F, 0x99C5], [0xC544, 0xD0A4, 0xD558, 0xBC14, 0xB77C, 0xC5ED]),
    ([0x4E0A, 0x91CE], [0xC6B0, 0xC5D0, 0xB178]),
    ([0x4E0A, 0x91CE, 0x99C5], [0xC6B0, 0xC5D0, 0xB178, 0xC5ED]),
    ([0x6D45, 0x8349], [0xC544, 0xC0AC, 0xCFE0, 0xC0AC]),
    ([0x6D45, 0x8349, 0x99C5], [0xC544, 0xC0AC, 0xCFE0, 0xC0AC, 0xC5ED]),
    ([0x516D, 0x672C, 0x6728], [0xB86F, 0xD3F0, 0xAE30]),
    ([0x516D, 0x672C, 0x6728, 0x99C5], [0xB86F, 0xD3F0, 0xAE30, 0xC5ED]),
    ([0x8D64, 0x5742], [0xC544, 0xCE74, 0xC0AC, 0xCE74]),
    ([0x8D64, 0x5742, 0x99C5], [0xC544, 0xCE74, 0xC0AC, 0xCE74, 0xC5ED]),
    ([0x9EBB, 0x5E03], [0xC544, 0xC790, 0xBD80]),
    ([0x9EBB, 0x5E03, 0x5341, 0x756A], [0xC544, 0xC790, 0xBD80, 0xC8FC, 0xBC18]),
    ([0x53F0, 0x5834], [0xB2E4, 0xC774, 0xBC14]),
    ([0x304A, 0x53F0, 0x5834], [0xC624, 0xB2E4, 0xC774, 0xBC14]),
    ([0x9326, 0x7CF8, 0x753A], [0xD0A8, 0xC2DC, 0xCD08]),
    ([0x84B2, 0x7530], [0xCE74, 0xB9C8, 0xD0C0]),
    ([0x5927, 0x4E95, 0x753A], [0xC624, 0xC774, 0xB9C8, 0xCE58]),
    ([0x4E94, 0x53CD, 0x7530], [0xACE0, 0xD0C4, 0xB2E4]),
    ([0x7530, 0x753A], [0xB2E4, 0xB9C8, 0xCE58]),
    ([0x6D5C, 0x677E, 0x753A], [0xD558, 0xB9C8, 0xB9C8, 0xCE20, 0xCD08]),
    ([0x9AD8, 0x7530, 0x99AC, 0x5834], [0xB2E4, 0xCE74, 0xB2E4, 0xB178, 0xBC14, 0xBC14]),
    ([0x65B0, 0x5927, 0x4E45, 0x4FDD], [0xC2E0, 0xC624, 0xCFE0, 0xBCF4]),
    ([0x4E2D, 0x91CE], [0xB098, 0xCE74, 0xB178]),
    ([0x837B, 0x7AAA], [0xC624, 0xAE30, 0xCFE0, 0xBCF4]),
    ([0x5409, 0x7965, 0x5BFA], [0xD0A4, 0xCE58, 0xC870, 0xC9C0]),
    ([0x4E09, 0x9DF9], [0xBBF8, 0xD0C0, 0xCE74]),
    ([0x8ABF, 0x5E03], [0xCD08, 0xD6C4]),
    ([0x5E9C, 0x4E2D], [0xD6C4, 0xCD94]),
    ([0x753A, 0x7530], [0xB9C8, 0xCE58, 0xB2E4]),
    ([0x7ACB, 0x5DDD], [0xD0C0, 0xCE58, 0xCE74, 0xC640]),
    ([0x516B, 0x738B, 0x5B50], [0xD558, 0xCE58, 0xC624, 0xC9C0]),
    ([0x4E09, 0x8ED2, 0x8336, 0x5C4B], [0xC0B0, 0xAC90, 0xC790, 0xC57C]),
    ([0x4E0B, 0x5317, 0x6CA2], [0xC2DC, 0xBAA8, 0xD0A4, 0xD0C0, 0xC790, 0xC640]),
    ([0x4E2D, 0x76EE, 0x9ED2], [0xB098, 0xCE74, 0xBA54, 0xAD6C, 0xB85C]),
    ([0x81EA, 0x7531, 0x304C, 0x4E18], [0xC9C0, 0xC720, 0xAC00, 0xC624, 0xCE74]),
    ([0x4E8C, 0x5B50, 0x7389, 0x5DDD], [0xD6C4, 0xD0C0, 0xCF54, 0xD0C0, 0xB9C8, 0xAC00, 0xC640]),
    ([0x6B66, 0x8535, 0x5C0F, 0x6749], [0xBB34, 0xC0AC, 0xC2DC, 0xCF54, 0xC2A4, 0xAE30]),
    ([0x6E9D, 0x306E, 0x53E3], [0xBBF8, 0xC870, 0xB178, 0xCFE0, 0xCE58]),
    ([0x305F, 0x307E, 0x30D7, 0x30E9, 0x30FC, 0x30B6], [0xD0C0, 0xB9C8, 0xD504, 0xB77C, 0xC790]),
    ([0x65E5, 0x5409], [0xD788, 0xC694, 0xC2DC]),
    ([0x83CA, 0x540D], [0xD0A4, 0xCFE0, 0xB098]),
    ([0x7DB1, 0x5CF6], [0xCE20, 0xB098, 0xC2DC, 0xB9C8]),
    ([0x5927, 0x5009, 0x5C71], [0xC624, 0xCFE0, 0xB77C, 0xC57C, 0xB9C8]),
    ([0x767D, 0x697D], [0xD558, 0xCFE0, 0xB77C, 0xCFE0]),
    ([0x6A2A, 0x6D5C], [0xC694, 0xCF54, 0xD558, 0xB9C8]),
    ([0x6A2A, 0x6D5C, 0x99C5], [0xC694, 0xCF54, 0xD558, 0xB9C8, 0xC5ED]),
    ([0x5DDD, 0x5D0E], [0xCE74, 0xC640, 0xC0AC, 0xD0A4]),
    ([0x5DDD, 0x5D0E, 0x99C5], [0xCE74, 0xC640, 0xC0AC, 0xD0A4, 0xC5ED]),
    ([0x9DB4, 0x898B], [0xCE20, 0xB8E8, 0xBBF8]),
    ([0x6238, 0x585A], [0xD1A0, 0xCE20, 0xCE74]),
    ([0x85E4, 0x6CA2], [0xD6C4, 0xC9C0, 0xC0AC, 0xC640]),
    ([0x5927, 0x8239], [0xC624, 0xD6C4, 0xB098]),
    ([0x938C, 0x5009], [0xCE74, 0xB9C8, 0xCFE0, 0xB77C]),
    ([0x6C5F, 0x30CE, 0x5CF6], [0xC5D0, 0xB178, 0xC2DC, 0xB9C8]),
    ([0x8305, 0x30F6, 0x5D0E], [0xCE58, 0xAC00, 0xC0AC, 0xD0A4]),
    ([0x5E73, 0x585A], [0xD788, 0xB77C, 0xCE20, 0xCE74]),
    ([0x5C0F, 0x7530, 0x539F], [0xC624, 0xB2E4, 0xC640, 0xB77C]),
    ([0x539A, 0x6728], [0xC544, 0xCE20, 0xAE30]),
    ([0x6D77, 0x8001, 0x540D], [0xC5D0, 0xBE44, 0xB098]),
    ([0x76F8, 0x6A21, 0x5927, 0x91CE], [0xC0AC, 0xAC00, 0xBBF8, 0xC624, 0xB178]),
    ([0x6A4B, 0x672C], [0xD558, 0xC2DC, 0xBAA8, 0xD1A0]),
    ([0x843D, 0x5408], [0xC624, 0xCE58, 0xC544, 0xC774]),
    ([0x843D, 0x5408, 0x5357, 0x9577, 0x5D0E], [0xC624, 0xCE58, 0xC544, 0xC774, 0x0020, 0xBBF8, 0xB098, 0xBBF8, 0xB098, 0xAC00, 0xC0AC, 0xD0A4]),
    ([0x843D, 0x5408, 0x5357, 0x9577, 0x5D0E, 0x99C5], [0xC624, 0xCE58, 0xC544, 0xC774, 0x0020, 0xBBF8, 0xB098, 0xBBF8, 0xB098, 0xAC00, 0xC0AC, 0xD0A4, 0xC5ED]),
    ([0x5357, 0x9577, 0x5D0E], [0xBBF8, 0xB098, 0xBBF8, 0xB098, 0xAC00, 0xC0AC, 0xD0A4]),
    ([0x65E5, 0x672C, 0x6A4B], [0xB2C8, 0xD63C, 0xBC14, 0xC2DC]),
    ([0x6C34, 0x9053, 0x6A4B], [0xC2A4, 0xC774, 0xB3C4, 0xBC14, 0xC2DC]),
    ([0x98EF, 0x7530, 0x6A4B], [0xC774, 0xC774, 0xB2E4, 0xBC14, 0xC2DC]),
    ([0x795E, 0x697D, 0x5742], [0xCE74, 0xAD6C, 0xB77C, 0xC790, 0xCE74]),
    ([0x5F8C, 0x697D, 0x5712], [0xCF54, 0xB77C, 0xCFE0, 0xC5D4]),
    ([0x5DE3, 0x9D28], [0xC2A4, 0xAC00, 0xBAA8]),
    ([0x99D2, 0x8FBC], [0xCF54, 0xB9C8, 0xACE0, 0xBA54]),
    ([0x897F, 0x65E5, 0x66AE, 0x91CC], [0xB2C8, 0xC2DC, 0xB2DB, 0xD3EC, 0xB9AC]),
    ([0x65E5, 0x66AE, 0x91CC], [0xB2DB, 0xD3EC, 0xB9AC]),
    ([0x5317, 0x5343, 0x4F4F], [0xD0A4, 0xD0C0, 0xC13C, 0xC8FC]),
    ([0x5357, 0x5343, 0x4F4F], [0xBBF8, 0xB098, 0xBBF8, 0xC13C, 0xC8FC]),
    ([0x4E80, 0x6238], [0xCE74, 0xBA54, 0xC774, 0xB3C4]),
    ([0x4E21, 0x56FD], [0xB8CC, 0xACE0, 0xCFE0]),
    ([0x9580, 0x524D, 0x4EF2, 0x753A], [0xBAAC, 0xC820, 0xB098, 0xCE74, 0xCD08]),
    ([0x8C4A, 0x6D32], [0xD1A0, 0xC694, 0xC2A4]),
    ([0x6709, 0x660E], [0xC544, 0xB9AC, 0xC544, 0xCF00]),
    ([0x65B0, 0x6728, 0x5834], [0xC2E0, 0xD0A4, 0xBC14]),
    ([0x845B, 0x897F], [0xCE74, 0xC0AC, 0xC774]),
    ([0x897F, 0x845B, 0x897F], [0xB2C8, 0xC2DC, 0xCE74, 0xC0AC, 0xC774]),
    ([0x8239, 0x6A4B], [0xD6C4, 0xB098, 0xBC14, 0xC2DC]),
    ([0x6D25, 0x7530, 0x6CBC], [0xCE20, 0xB2E4, 0xB204, 0xB9C8]),
    ([0x5343, 0x8449], [0xCE58, 0xBC14]),
    ([0x5E55, 0x5F35], [0xB9C8, 0xCFE0, 0xD558, 0xB9AC]),
    ([0x6D77, 0x6D5C, 0x5E55, 0x5F35], [0xCE74, 0xC774, 0xD78C, 0xB9C8, 0xCFE0, 0xD558, 0xB9AC]),
    ([0x67CF], [0xCE74, 0xC2DC, 0xC640]),
    ([0x677E, 0x6238], [0xB9C8, 0xCE20, 0xB3C4]),
    ([0x53D6, 0x624B], [0xD1A0, 0xB9AC, 0xB370]),
    ([0x5927, 0x5BAE], [0xC624, 0xBBF8, 0xC57C]),
    ([0x6D66, 0x548C], [0xC6B0, 0xB77C, 0xC640]),
    ([0x5DDD, 0x53E3], [0xCE74, 0xC640, 0xAD6C, 0xCE58]),
    ([0x8349, 0x52A0], [0xC18C, 0xCE74]),
    ([0x8D8A, 0x8C37], [0xCF54, 0xC2DC, 0xAC00, 0xC57C]),
    ([0x6625, 0x65E5, 0x90E8], [0xCE74, 0xC2A4, 0xCE74, 0xBCA0]),
    ([0x6240, 0x6CA2], [0xD1A0, 0xCF54, 0xB85C, 0xC790, 0xC640]),
    ([0x5DDD, 0x8D8A], [0xCE74, 0xC640, 0xACE0, 0xC5D0]),
    ([0x5927, 0x962A], [0xC624, 0xC0AC, 0xCE74]),
    ([0x5927, 0x962A, 0x99C5], [0xC624, 0xC0AC, 0xCE74, 0xC5ED]),
    ([0x6885, 0x7530], [0xC6B0, 0xBA54, 0xB2E4]),
    ([0x96E3, 0x6CE2], [0xB09C, 0xBC14]),
    ([0x5FC3, 0x658E, 0x6A4B], [0xC2E0, 0xC0AC, 0xC774, 0xBC14, 0xC2DC]),
    ([0x5929, 0x738B, 0x5BFA], [0xD150, 0xB178, 0xC9C0]),
    ([0x4EAC, 0x6A4B], [0xCFC4, 0xBC14, 0xC2DC]),
    ([0x65B0, 0x5927, 0x962A], [0xC2E0, 0xC624, 0xC0AC, 0xCE74]),
    ([0x6DC0, 0x5C4B, 0x6A4B], [0xC694, 0xB3C4, 0xC57C, 0xBC14, 0xC2DC]),
    ([0x672C, 0x753A], [0xD63C, 0xB9C8, 0xCE58]),
    ([0x540D, 0x53E4, 0x5C4B], [0xB098, 0xACE0, 0xC57C]),
    ([0x4EAC, 0x90FD], [0xAD50, 0xD1A0]),
    ([0x795E, 0x6238], [0xACE0, 0xBCA0]),
    ([0x798F, 0x5CA1], [0xD6C4, 0xCFE0, 0xC624, 0xCE74]),
    ([0x672D, 0x5E4C], [0xC0BF, 0xD3EC, 0xB85C]),
    ([0x4ED9, 0x53F0], [0xC13C, 0xB2E4, 0xC774]),
    ([0x5E83, 0x5CF6], [0xD788, 0xB85C, 0xC2DC, 0xB9C8]),
    ([0x5317, 0x4E5D, 0x5DDE], [0xD0A4, 0xD0C0, 0xD050, 0xC288]),
    ([0x90A3, 0x8987], [0xB098, 0xD558]),
    ([0x7AF6, 0x6280, 0x5834], [0xACBD, 0xAE30, 0xC7A5]),
    ([0x4F53, 0x80B2, 0x9928], [0xCCB4, 0xC721, 0xAD00]),
    ([0x904B, 0x52D5, 0x5834], [0xC6B4, 0xB3D9, 0xC7A5]),
    ([0x7DCF, 0x5408, 0x904B, 0x52D5, 0x5834], [0xC885, 0xD569, 0xC6B4, 0xB3D9, 0xC7A5]),
    ([0x30B9, 0x30BF, 0x30B8, 0x30A2, 0x30E0], [0xC2A4, 0xD0C0, 0xB514, 0xC6C0]),
    ([0x30A2, 0x30EA, 0x30FC, 0x30CA], [0xC544, 0xB808, 0xB098]),
    ([0x30C9, 0x30FC, 0x30E0], [0xB3D4]),
    ([0x30BB, 0x30F3, 0x30BF, 0x30FC], [0xC13C, 0xD130]),
    ([0x30D1, 0x30FC, 0x30AF], [0xD30C, 0xD06C]),
    ([0x516C, 0x5712], [0xACF5, 0xC6D0]),
    ([0x5E83, 0x5834], [0xAD11, 0xC7A5]),
    ([0x99C5, 0x5F92, 0x6B69], [0xC5ED, 0x0020, 0xB3C4, 0xBCF4]),
    ([0x5F92, 0x6B69], [0xB3C4, 0xBCF4]),
    ([0x5206], [0xBD84]),
    ([0x79D2], [0xCD08]),
    ([0x76F4, 0x7D50], [0xC9C1, 0xACB0]),
    ([0x99C5, 0x76F4, 0x7D50], [0xC5ED, 0x0020, 0xC9C1, 0xACB0]),
    ([0x51FA, 0x53E3], [0xCD9C, 0xAD6C]),
    ([0x5317, 0x53E3], [0xBD81, 0xCABD, 0xCD9C, 0xAD6C]),
    ([0x5357, 0x53E3], [0xB0A8, 0xCABD, 0xCD9C, 0xAD6C]),
    ([0x6771, 0x53E3], [0xB3D9, 0xCABD, 0xCD9C, 0xAD6C]),
    ([0x897F, 0x53E3], [0xC11C, 0xCABD, 0xCD9C, 0xAD6C]),
    ([0x4E2D, 0x592E, 0x53E3], [0xC911, 0xC559, 0xCD9C, 0xAD6C]),
    ([0x30DC, 0x30F3, 0x30D5, 0x30A3, 0x30F3], [0xBCF8, 0xD540]),
    ([0x30D5, 0x30C3, 0x30C8, 0x30B5, 0x30EB], [0xD48B, 0xC0B4]),
    ([0x30B5, 0x30C3, 0x30AB, 0x30FC], [0xCD95, 0xAD6C]),
    ([0x30B9, 0x30DD, 0x30FC, 0x30C4], [0xC2A4, 0xD3EC, 0xCE20]),
    ([0x30B3, 0x30FC, 0x30C8], [0xCF54, 0xD2B8]),
    ([0x30A2, 0x30AF, 0x30BB, 0x30B9], [0xC811, 0xADFC, 0xC131]),
    ([0x30B5, 0x30FC, 0x30D3, 0x30B9], [0xC11C, 0xBE44, 0xC2A4]),
    ([0x30B9, 0x30C6, 0x30FC, 0x30B8], [0xC2A4, 0xD14C, 0xC774, 0xC9C0]),
    ([0x30AB, 0x30C6, 0x30B4, 0x30EA, 0x30FC], [0xCE74, 0xD14C, 0xACE0, 0xB9AC]),
    ([0x30A8, 0x30F3, 0x30B8, 0x30E7, 0x30A4], [0xC5D4, 0xC870, 0xC774]),
    ([0x30DF, 0x30C3, 0x30AF, 0x30B9], [0xBBF9, 0xC2A4]),
    ([0x30AD, 0x30E3, 0x30F3, 0x30DA, 0x30FC, 0x30F3], [0xCEA0, 0xD398, 0xC778]),
    ([0x30B3, 0x30B5, 0x30EB], [0xAC1C, 0xC778, 0xD48B, 0xC0B4]),
    ([0x30A2, 0x30B9, 0x30BF], [0xC544, 0xC2A4, 0xD0C0]),
    ([0x30D3, 0x30AE, 0x30CA, 0x30FC], [0xBE44, 0xAE30, 0xB108]),
    ([0x30EC, 0x30D9, 0x30EB], [0xB808, 0xBCA8]),
    ([0x30A4, 0x30F3, 0x30C9, 0x30A2], [0xC778, 0xB3C4, 0xC5B4]),
    ([0x30A2, 0x30A6, 0x30C8, 0x30C9, 0x30A2], [0xC544, 0xC6C3, 0xB3C4, 0xC5B4]),
    ([0x30A2, 0x30AF, 0x30BB, 0x30B9, 0x629C, 0x7FA4], [0xC811, 0xADFC, 0xC131, 0x0020, 0xCD5C, 0xACE0]),
    ([0x7DBA, 0x9E97, 0x306A, 0x65BD, 0x8A2D], [0xAE68, 0xB057, 0xD55C, 0x0020, 0xC2DC, 0xC124]),
    ([0x500B, 0x4EBA, 0x53C2, 0x52A0], [0xAC1C, 0xC778, 0xCC38, 0xAC00]),
    ([0x5C4B, 0x5185, 0x30B3, 0x30FC, 0x30C8], [0xC2E4, 0xB0B4, 0x0020, 0xCF54, 0xD2B8]),
    ([0x5B8C, 0x5168, 0x5BA4, 0x5185], [0xC644, 0xC804, 0x0020, 0xC2E4, 0xB0B4]),
    ([0x521D, 0x5FC3, 0x8005, 0x6B53, 0x8FCE], [0xCD08, 0xBCF4, 0xC790, 0x0020, 0xD658, 0xC601]),
    ([0x7D4C, 0x9A13, 0x8005, 0x5411, 0x3051], [0xC720, 0xACBD, 0xD5D8, 0xC790, 0x0020, 0xB300, 0xC0C1]),
    ([0x671D, 0x30A4, 0x30C1], [0xC544, 0xCE68, 0x0020, 0xCCAB, 0x0020, 0xD0C0, 0xC784]),
    ([0x500B, 0x30B5, 0x30EB], [0xAC1C, 0xC778, 0xD48B, 0xC0B4]),
    ([0x5C4B, 0x5916], [0xC57C, 0xC678]),
    ([0x5C4B, 0x4E0A], [0xC625, 0xC0C1]),
    ([0x5BA4, 0x5185], [0xC2E4, 0xB0B4]),
    ([0x5C4B, 0x5185], [0xC2E4, 0xB0B4]),
    ([0x521D, 0x5FC3, 0x8005], [0xCD08, 0xBCF4, 0xC790]),
    ([0x7D4C, 0x9A13, 0x8005], [0xACBD, 0xD5D8, 0xC790]),
    ([0x4E2D, 0x7D1A], [0xC911, 0xAE09]),
    ([0x4E0A, 0x7D1A], [0xC0C1, 0xAE09]),
    ([0x521D, 0x7D1A], [0xCD08, 0xAE09]),
    ([0x5973, 0x6027], [0xC5EC, 0xC131]),
    ([0x7537, 0x6027], [0xB0A8, 0xC131]),
    ([0x4E2D, 0x6B62], [0xC911, 0xC9C0]),
    ([0x958B, 0x50AC], [0xAC1C, 0xCD5C]),
    ([0x5272, 0x5F15], [0xD560, 0xC778]),
    ([0x52DF, 0x96C6], [0xBAA8, 0xC9D1]),
    ([0x7DBA, 0x9E97], [0xAE68, 0xB057, 0xD55C]),
    ([0x629C, 0x7FA4], [0xCD5C, 0xACE0])]"

text \<open>
  \<open>Object.keys(WORD_MAP).sort((a, b) => b.length - a.length)\<close>.  No key of the dictionary
  is an integer index, so \<open>Object.keys\<close> lists the keys in the order of the literal.
  \<open>Array.prototype.sort\<close> is stable: it is an insertion of each key, from the last to the
  first, in front of the first key that the comparator does not put before it.
\<close>

definition byLength :: "jsstring \<Rightarrow> jsstring \<Rightarrow> int" where
  "byLength a b = int (length b) - int (length a)"

fun insertSorted :: "('a \<Rightarrow> 'a \<Rightarrow> int) \<Rightarrow> 'a \<Rightarrow> 'a list \<Rightarrow> 'a list" where
  "insertSorted cmp a [] = [a]"
| "insertSorted cmp a (b # bs) = (if cmp a b > 0 then b # insertSorted cmp a bs else a # b # bs)"

definition stableSort :: "('a \<Rightarrow> 'a \<Rightarrow> int) \<Rightarrow> 'a list \<Rightarrow> 'a list" where
  "stableSort cmp xs = foldr (insertSorted cmp) xs []"

definition WORD_MAP_KEYS :: "jsstring list" where
  "WORD_MAP_KEYS = stableSort byLength (map fst WORD_MAP)"

text \<open>The array \<open>KATAKANA_COMPOUNDS\<close> of (pattern, hangul) pairs, in source order.\<close>

definition KATAKANA_COMPOUNDS :: "(jsstring \<times> jsstring) list" where
  "KATAKANA_COMPOUNDS = [
    ([0x30AD, 0x30E3, 0x30F3], [0xCE94]), ([0x30B7, 0x30E3, 0x30FC], [0xC0E4]), ([0x30C1, 0x30E3, 0x30FC], [0xCC28]),
    ([0x30AD, 0x30E3], [0xCEAC]), ([0x30AD, 0x30E5], [0xD050]), ([0x30AD, 0x30E7], [0xCFC4]),
    ([0x30B7, 0x30E3], [0xC0E4]), ([0x30B7, 0x30E5], [0xC288]), ([0x30B7, 0x30E7], [0xC1FC]),
    ([0x30C1, 0x30E3], [0xCC28]), ([0x30C1, 0x30E5], [0xCD94]), ([0x30C1, 0x30E7], [0xCD08]),
    ([0x30CB, 0x30E3], [0xB0D0]), ([0x30CB, 0x30E5], [0xB274]), ([0x30CB, 0x30E7], [0xB1E8]),
    ([0x30D2, 0x30E3], [0xD590]), ([0x30D2, 0x30E5], [0xD734]), ([0x30D2, 0x30E7], [0xD6A8]),
    ([0x30DF, 0x30E3], [0xBA00]), ([0x30DF, 0x30E5], [0xBBA4]), ([0x30DF, 0x30E7], [0xBB18]),
    ([0x30EA, 0x30E3], [0xB7B4]), ([0x30EA, 0x30E5], [0xB958]), ([0x30EA, 0x30E7], [0xB8CC]),
    ([0x30AE, 0x30E3], [0xAC38]), ([0x30AE, 0x30E5], [0xADDC]), ([0x30AE, 0x30E7], [0xAD50]),
    ([0x30B8, 0x30E3], [0xC790]), ([0x30B8, 0x30E5], [0xC8FC]), ([0x30B8, 0x30E7], [0xC870]),
    ([0x30D3, 0x30E3], [0xBC4C]), ([0x30D3, 0x30E5], [0xBDF0]), ([0x30D3, 0x30E7], [0xBD64]),
    ([0x30D4, 0x30E3], [0xD344]), ([0x30D4, 0x30E5], [0xD4E8]), ([0x30D4, 0x30E7], [0xD45C]),
    ([0x30A4, 0x30A7], [0xC608]), ([0x30A6, 0x30A3], [0xC704]), ([0x30A6, 0x30A7], [0xC6E8]),
    ([0x30A6, 0x30A9], [0xC6CC]), ([0x30F4, 0x30A1], [0xBC14]), ([0x30F4, 0x30A3], [0xBE44]),
    ([0x30F4, 0x30A7], [0xBCA0]), ([0x30F4, 0x30A9], [0xBCF4]), ([0x30B7, 0x30A7], [0xC170]),
    ([0x30B8, 0x30A7], [0xC81C]), ([0x30C1, 0x30A7], [0xCCB4]), ([0x30C6, 0x30A3], [0xD2F0]),
    ([0x30C7, 0x30A3], [0xB514]), ([0x30C7, 0x30E5], [0xB4C0]), ([0x30D5, 0x30A1], [0xD30C]),
    ([0x30D5, 0x30A3], [0xD53C]), ([0x30D5, 0x30A7], [0xD398]), ([0x30D5, 0x30A9], [0xD3EC]),
    ([0x30C4, 0x30A1], [0xCC28]), ([0x30C4, 0x30A3], [0xCE58]), ([0x30C4, 0x30A7], [0xCCB4]),
    ([0x30C4, 0x30A9], [0xCD08]), ([0x30C3, 0x30AB], [0xAE4C]), ([0x30C3, 0x30AD], [0xB07C]),
    ([0x30C3, 0x30AF], [0xB044]), ([0x30C3, 0x30B1], [0xAED8]), ([0x30C3, 0x30B3], [0xAF2C]),
    ([0x30C3, 0x30B5], [0xC2F8]), ([0x30C3, 0x30B7], [0xC528]), ([0x30C3, 0x30B9], [0xC4F0]),
    ([0x30C3, 0x30BB], [0xC384]), ([0x30C3, 0x30BD], [0xC3D8]), ([0x30C3, 0x30BF], [0xB530]),
    ([0x30C3, 0x30C1], [0xCC0C]), ([0x30C3, 0x30C4], [0xCBD4]), ([0x30C3, 0x30C6], [0xB5BC]),
    ([0x30C3, 0x30C8], [0xB610]), ([0x30C3, 0x30D1], [0xBE60]), ([0x30C3, 0x30D4], [0xC090]),
    ([0x30C3, 0x30D7], [0xBFCC]), ([0x30C3, 0x30DA], [0xBEEC]), ([0x30C3, 0x30DD], [0xBF40])]"

text \<open>The object \<open>KATAKANA_SINGLE\<close>; its last two entries (U+30FC, U+30C3) map to the empty string.\<close>

definition KATAKANA_SINGLE :: "(jsstring \<times> jsstring) list" where
  "KATAKANA_SINGLE = [
    ([0x30A2], [0xC544]), ([0x30A4], [0xC774]), ([0x30A6], [0xC6B0]), ([0x30A8], [0xC5D0]),
    ([0x30AA], [0xC624]), ([0x30AB], [0xCE74]), ([0x30AD], [0xD0A4]), ([0x30AF], [0xCFE0]),
    ([0x30B1], [0xCF00]), ([0x30B3], [0xCF54]), ([0x30B5], [0xC0AC]), ([0x30B7], [0xC2DC]),
    ([0x30B9], [0xC2A4]), ([0x30BB], [0xC138]), ([0x30BD], [0xC18C]), ([0x30BF], [0xD0C0]),
    ([0x30C1], [0xCE58]), ([0x30C4], [0xCE20]), ([0x30C6], [0xD14C]), ([0x30C8], [0xD1A0]),
    ([0x30CA], [0xB098]), ([0x30CB], [0xB2C8]), ([0x30CC], [0xB204]), ([0x30CD], [0xB124]),
    ([0x30CE], [0xB178]), ([0x30CF], [0xD558]), ([0x30D2], [0xD788]), ([0x30D5], [0xD6C4]),
    ([0x30D8], [0xD5E4]), ([0x30DB], [0xD638]), ([0x30DE], [0xB9C8]), ([0x30DF], [0xBBF8]),
    ([0x30E0], [0xBB34]), ([0x30E1], [0xBA54]), ([0x30E2], [0xBAA8]), ([0x30E4], [0xC57C]),
    ([0x30E6], [0xC720]), ([0x30E8], [0xC694]), ([0x30E9], [0xB77C]), ([0x30EA], [0xB9AC]),
    ([0x30EB], [0xB8E8]), ([0x30EC], [0xB808]), ([0x30ED], [0xB85C]), ([0x30EF], [0xC640]),
    ([0x30F2], [0xC624]), ([0x30F3], [0x3134]), ([0x30AC], [0xAC00]), ([0x30AE], [0xAE30]),
    ([0x30B0], [0xAD6C]), ([0x30B2], [0xAC8C]), ([0x30B4], [0xACE0]), ([0x30B6], [0xC790]),
    ([0x30B8], [0xC9C0]), ([0x30BA], [0xC988]), ([0x30BC], [0xC81C]), ([0x30BE], [0xC870]),
    ([0x30C0], [0xB2E4]), ([0x30C2], [0xC9C0]), ([0x30C5], [0xC988]), ([0x30C7], [0xB370]),
    ([0x30C9], [0xB3C4]), ([0x30D0], [0xBC14]), ([0x30D3], [0xBE44]), ([0x30D6], [0xBD80]),
    ([0x30D9], [0xBCA0]), ([0x30DC], [0xBCF4]), ([0x30D1], [0xD30C]), ([0x30D4], [0xD53C]),
    ([0x30D7], [0xD478]), ([0x30DA], [0xD398]), ([0x30DD], [0xD3EC]), ([0x30F4], [0xBE0C]),
    ([0x30FC], []), ([0x30C3], [])]"

text \<open>The object \<open>HIRAGANA_SINGLE\<close>.\<close>

definition HIRAGANA_SINGLE :: "(jsstring \<times> jsstring) list" where
  "HIRAGANA_SINGLE = [
    ([0x3042], [0xC544]), ([0x3044], [0xC774]), ([0x3046], [0xC6B0]), ([0x3048], [0xC5D0]),
    ([0x304A], [0xC624]), ([0x304B], [0xCE74]), ([0x304D], [0xD0A4]), ([0x304F], [0xCFE0]),
    ([0x3051], [0xCF00]), ([0x3053], [0xCF54]), ([0x3055], [0xC0AC]), ([0x3057], [0xC2DC]),
    ([0x3059], [0xC2A4]), ([0x305B], [0xC138]), ([0x305D], [0xC18C]), ([0x305F], [0xD0C0]),
    ([0x3061], [0xCE58]), ([0x3064], [0xCE20]), ([0x3066], [0xD14C]), ([0x3068], [0xD1A0]),
    ([0x306A], [0xB098]), ([0x306B], [0xB2C8]), ([0x306C], [0xB204]), ([0x306D], [0xB124]),
    ([0x306E], [0xB178]), ([0x306F], [0xD558]), ([0x3072], [0xD788]), ([0x3075], [0xD6C4]),
    ([0x3078], [0xD5E4]), ([0x307B], [0xD638]), ([0x307E], [0xB9C8]), ([0x307F], [0xBBF8]),
    ([0x3080], [0xBB34]), ([0x3081], [0xBA54]), ([0x3082], [0xBAA8]), ([0x3084], [0xC57C]),
    ([0x3086], [0xC720]), ([0x3088], [0xC694]), ([0x3089], [0xB77C]), ([0x308A], [0xB9AC]),
    ([0x308B], [0xB8E8]), ([0x308C], [0xB808]), ([0x308D], [0xB85C]), ([0x308F], [0xC640]),
    ([0x3092], [0xC624]), ([0x3093], [0x3134]), ([0x304C], [0xAC00]), ([0x304E], [0xAE30]),
    ([0x3050], [0xAD6C]), ([0x3052], [0xAC8C]), ([0x3054], [0xACE0]), ([0x3056], [0xC790]),
    ([0x3058], [0xC9C0]), ([0x305A], [0xC988]), ([0x305C], [0xC81C]), ([0x305E], [0xC870]),
    ([0x3060], [0xB2E4]), ([0x3062], [0xC9C0]), ([0x3065], [0xC988]), ([0x3067], [0xB370]),
    ([0x3069], [0xB3C4]), ([0x3070], [0xBC14]), ([0x3073], [0xBE44]), ([0x3076], [0xBD80]),
    ([0x3079], [0xBCA0]), ([0x307C], [0xBCF4]), ([0x3071], [0xD30C]), ([0x3074], [0xD53C]),
    ([0x3077], [0xD478]), ([0x307A], [0xD398]), ([0x307D], [0xD3EC])]"

text \<open>The object \<open>KANJI_MAP\<close> (Sino-Korean readings).\<close>

definition KANJI_MAP :: "(jsstring \<times> jsstring) list" where
  "KANJI_MAP = [
    ([0x65E5], [0xC77C]), ([0x672C], [0xBCF8]), ([0x6A4B], [0xAD50]), ([0x4E2D], [0xC911]),
    ([0x592E], [0xC559]), ([0x533A], [0xAD6C]), ([0x7ACB], [0xB9BD]), ([0x7DCF], [0xCD1D]),
    ([0x5408], [0xD569]), ([0x5BA4], [0xC2E4]), ([0x5185], [0xB0B4]), ([0x6D5C], [0xBE48]),
    ([0x753A], [0xC815]), ([0x99C5], [0xC5ED]), ([0x5206], [0xBD84]), ([0x6642], [0xC2DC]),
    ([0x9593], [0xAC04]), ([0x500B], [0xAC1C]), ([0x4EBA], [0xC778]), ([0x53C2], [0xCC38]),
    ([0x52A0], [0xAC00]), ([0x90FD], [0xB3C4]), ([0x4E01], [0xC815]), ([0x76EE], [0xBAA9]),
    ([0x6570], [0xC218]), ([0x4E0D], [0xBD80]), ([0x8DB3], [0xC871]), ([0x70BA], [0xC704]),
    ([0x6B62], [0xC9C0]), ([0x6A2A], [0xD6A1]), ([0x795E], [0xC2E0]), ([0x5948], [0xB098]),
    ([0x5DDD], [0xCC9C]), ([0x770C], [0xD604]), ([0x5E02], [0xC2DC]), ([0x5C71], [0xC0B0]),
    ([0x9694], [0xACA9]), ([0x9031], [0xC8FC]), ([0x50AC], [0xCD5C]), ([0x7D4C], [0xACBD]),
    ([0x9A13], [0xD5D8]), ([0x8005], [0xC790]), ([0x5411], [0xD5A5]), ([0x5148], [0xC120]),
    ([0x7740], [0xCC29]), ([0x5272], [0xD560]), ([0x540D], [0xBA85]), ([0x6C34], [0xC218]),
    ([0x66DC], [0xC694]), ([0x671D], [0xC870]), ([0x5EA7], [0xC88C]), ([0x897F], [0xC11C]),
    ([0x7530], [0xC804]), ([0x7121], [0xBB34]), ([0x5C4B], [0xC625]), ([0x4E0A], [0xC0C1]),
    ([0x524D], [0xC804]), ([0x5186], [0xC6D0]), ([0x5F15], [0xC778]), ([0x5E73], [0xD3C9]),
    ([0x663C], [0xC8FC]), ([0x51FA], [0xCD9C]), ([0x5B8C], [0xC644]), ([0x5168], [0xC804]),
    ([0x548C], [0xD654]), ([0x5149], [0xAD11]), ([0x6210], [0xC131]), ([0x5897], [0xC99D]),
    ([0x57FC], [0xAE30]), ([0x7389], [0xC625]), ([0x767D], [0xBC31]), ([0x5B50], [0xC790]),
    ([0x8001], [0xB178]), ([0x82E5], [0xC57D]), ([0x7537], [0xB0A8]), ([0x5973], [0xC5EC]),
    ([0x8AB0], [0xC218]), ([0x697D], [0xB77D]), ([0x5065], [0xAC74]), ([0x5EB7], [0xAC15]),
    ([0x5D0E], [0xAE30]), ([0x9AD8], [0xACE0]), ([0x6D25], [0xC9C4]), ([0x87F9], [0xD574]),
    ([0x8C37], [0xACE1]), ([0x5F53], [0xB2F9]), ([0x4E88], [0xC608]), ([0x7D04], [0xC57D]),
    ([0x8A73], [0xC0C1]), ([0x7D30], [0xC138]), ([0x78BA], [0xD655]), ([0x8A8D], [0xC778]),
    ([0x554F], [0xBB38]), ([0x65B0], [0xC2E0]), ([0x5BBF], [0xC219]), ([0x9650], [0xD55C]),
    ([0x5B9A], [0xC815]), ([0x5229], [0xC774]), ([0x7528], [0xC6A9]), ([0x7A7A], [0xACF5]),
    ([0x96FB], [0xC804]), ([0x8A71], [0xD654]), ([0x4EE3], [0xB300]), ([0x6728], [0xBAA9]),
    ([0x7AF6], [0xACBD]), ([0x6280], [0xAE30]), ([0x5834], [0xC7A5]), ([0x539F], [0xC6D0]),
    ([0x5F92], [0xB3C4]), ([0x6B69], [0xBCF4]), ([0x7FA4], [0xAD70]), ([0x9E97], [0xB824]),
    ([0x65BD], [0xC2DC]), ([0x8A2D], [0xC124]), ([0x6E0B], [0xC0BD]), ([0x5357], [0xB0A8]),
    ([0x56FD], [0xAD6D]), ([0x7B2C], [0xC81C]), ([0x4E00], [0xC77C]), ([0x4F53], [0xCCB4]),
    ([0x80B2], [0xC721]), ([0x9928], [0xAD00]), ([0x843D], [0xB099]), ([0x9577], [0xC7A5]),
    ([0x5927], [0xB300]), ([0x6C5F], [0xAC15]), ([0x6238], [0xD638]), ([0x7DDA], [0xC120]),
    ([0x7D50], [0xACB0]), ([0x8C4A], [0xD48D]), ([0x5CF6], [0xB3C4]), ([0x5409], [0xAE38]),
    ([0x7965], [0xC0C1]), ([0x5BFA], [0xC0AC]), ([0x6D77], [0xD574]), ([0x5DE5], [0xACF5]),
    ([0x829D], [0xC9C0]), ([0x66F4], [0xACBD]), ([0x8863], [0xC758]), ([0x5099], [0xBE44]),
    ([0x97F3], [0xC74C]), ([0x6D41], [0xB958]), ([0x6B66], [0xBB34]), ([0x8535], [0xC7A5]),
    ([0x91CE], [0xC57C]), ([0x9326], [0xAE08]), ([0x7CF8], [0xC0AC]), ([0x968E], [0xACC4]),
    ([0x58A8], [0xBB35]), ([0x6D3B], [0xD65C]), ([0x5343], [0xCC9C]), ([0x4F4F], [0xC8FC]),
    ([0x7DD1], [0xB179]), ([0x756A], [0xBC88]), ([0x53F7], [0xD638]), ([0x7D1A], [0xAE09]),
    ([0x4EE5], [0xC774]), ([0x65B9], [0xBC29]), ([0x51B7], [0xB0C9]), ([0x623F], [0xBC29]),
    ([0x967D], [0xC591]), ([0x7802], [0xC0AC]), ([0x671F], [0xAE30]), ([0x5BAE], [0xAD81]),
    ([0x571F], [0xD1A0]), ([0x9762], [0xBA74]), ([0x5012], [0xB3C4]), ([0x8981], [0xC694]),
    ([0x4FDD], [0xBCF4]), ([0x8A66], [0xC2DC]), ([0x7B51], [0xCD95]), ([0x5EF6], [0xC5F0]),
    ([0x5E97], [0xC810]), ([0x66D9], [0xC11C]), ([0x67CF], [0xBC31]), ([0x8449], [0xC5FD]),
    ([0x99D2], [0xAD6C]), ([0x53F0], [0xB300]), ([0x512A], [0xC6B0]), ([0x9023], [0xC5F0]),
    ([0x7D61], [0xB77D]), ([0x67A0], [0xD2C0]), ([0x8239], [0xC120]), ([0x938C], [0xACB8]),
    ([0x5009], [0xCC3D]), ([0x53CB], [0xC6B0]), ([0x6E80], [0xB9CC]), ([0x54E1], [0xC6D0]),
    ([0x5FA1], [0xC5B4]), ([0x793C], [0xB840]), ([0x5929], [0xCC9C]), ([0x4E0B], [0xD558]),
    ([0x8336], [0xB2E4]), ([0x962A], [0xD310]), ([0x5E9C], [0xBD80]), ([0x5CB8], [0xC548]),
    ([0x91CC], [0xB9AC]), ([0x59EB], [0xD76C]), ([0x8DEF], [0xB85C]), ([0x5175], [0xBCD1]),
    ([0x5EAB], [0xACE0]), ([0x516B], [0xD314]), ([0x5BB6], [0xAC00]), ([0x8D8A], [0xC6D4]),
    ([0x84B2], [0xD3EC]), ([0x751F], [0xC0DD]), ([0x65E9], [0xC870]), ([0x7D9A], [0xC18D]),
    ([0x5317], [0xBD81]), ([0x53E3], [0xAD6C]), ([0x6B73], [0xC138]), ([0x6027], [0xC131]),
    ([0x6E58], [0xC0C1]), ([0x85E4], [0xB4F1]), ([0x6CA2], [0xD0DD]), ([0x5C02], [0xC804]),
    ([0x521D], [0xCD08]), ([0x6B53], [0xD658]), ([0x8FCE], [0xC601]), ([0x6839], [0xADFC]),
    ([0x4ED8], [0xBD80]), ([0x56DE], [0xD68C]), ([0x5238], [0xAD8C]), ([0x8607], [0xC18C]),
    ([0x6211], [0xC544]), ([0x6025], [0xAE09]), ([0x5B89], [0xC548]), ([0x5FC3], [0xC2EC]),
    ([0x6307], [0xC9C0]), ([0x6D66], [0xD3EC]), ([0x5E83], [0xAD11]), ([0x5C3E], [0xBBF8]),
    ([0x653E], [0xBC29]), ([0x5E74], [0xB144]), ([0x9078], [0xC120]), ([0x624B], [0xC218]),
    ([0x6559], [0xAD50]), ([0x6240], [0xC18C]), ([0x5C5E], [0xC18D]), ([0x5F97], [0xB4DD]),
    ([0x53EF], [0xAC00]), ([0x5C11], [0xC18C]), ([0x539A], [0xD6C4]), ([0x611B], [0xC560]),
    ([0x7532], [0xAC11]), ([0x6B8B], [0xC794]), ([0x55B6], [0xC601]), ([0x696D], [0xC5C5]),
    ([0x7D42], [0xC885]), ([0x4E86], [0xB8CC]), ([0x6599], [0xB8CC]), ([0x53E4], [0xACE0]),
    ([0x77E5], [0xC9C0]), ([0x6751], [0xCD0C]), ([0x6C60], [0xC9C0]), ([0x5C3C], [0xB2C8]),
    ([0x585A], [0xCD1D]), ([0x6D32], [0xC8FC]), ([0x5E78], [0xD589]), ([0x6C7A], [0xACB0]),
    ([0x578B], [0xD615]), ([0x5B87], [0xC6B0]), ([0x54C1], [0xD488]), ([0x80FD], [0xB2A5]),
    ([0x5B66], [0xD559]), ([0x5BFE], [0xB300]), ([0x8C61], [0xC0C1]), ([0x901A], [0xD1B5]),
    ([0x5E38], [0xC0C1]), ([0x91D1], [0xAE08]), ([0x5E55], [0xB9C9]), ([0x5F35], [0xC7A5]),
    ([0x82B1], [0xD654]), ([0x898B], [0xACAC]), ([0x6A5F], [0xAE30]), ([0x4FA1], [0xAC00]),
    ([0x683C], [0xACA9]), ([0x7FFC], [0xC775]), ([0x6885], [0xB9E4]), ([0x6DF1], [0xC2EC]),
    ([0x798F], [0xBCF5]), ([0x8853], [0xC220]), ([0x57FA], [0xAE30]), ([0x790E], [0xCD08]),
    ([0x9B3C], [0xADC0]), ([0x5BCC], [0xBD80]), ([0x58EB], [0xC0AC]), ([0x52D5], [0xB3D9]),
    ([0x753B], [0xD654]), ([0x64AE], [0xCD2C]), ([0x5F71], [0xC601]), ([0x6708], [0xC6D4]),
    ([0x583A], [0xACC4]), ([0x7F8E], [0xBBF8]), ([0x6750], [0xC7AC]), ([0x4E4B], [0xC9C0]),
    ([0x6CC9], [0xCC9C]), ([0x6625], [0xCD98]), ([0x90E8], [0xBD80]), ([0x5F8C], [0xD6C4]),
    ([0x5358], [0xB2E8]), ([0x767A], [0xBC1C]), ([0x4F4E], [0xC800]), ([0x591A], [0xB2E4]),
    ([0x6469], [0xB9C8]), ([0x7403], [0xAD6C]), ([0x5036], [0xAD6C]), ([0x6CB3], [0xD558]),
    ([0x7DF4], [0xB828]), ([0x7FD2], [0xC2B5]), ([0x4F1A], [0xD68C]), ([0x738B], [0xC655]),
    ([0x81FC], [0xAD6C]), ([0x677F], [0xD310]), ([0x84EE], [0xB828]), ([0x5916], [0xC678]),
    ([0x4ED9], [0xC120]), ([0x57CE], [0xC131]), ([0x6CBB], [0xCE58]), ([0x69C7], [0xC804]),
    ([0x6E05], [0xCCAD]), ([0x8328], [0xC790]), ([0x4E09], [0xC0BC]), ([0x4E18], [0xAD6C]),
    ([0x5439], [0xCDE8]), ([0x99D0], [0xC8FC]), ([0x8ECA], [0xCC28]), ([0x534A], [0xBC18]),
    ([0x4E45], [0xAD6C]), ([0x5B9D], [0xBCF4]), ([0x9F8D], [0xC6A9]), ([0x83EF], [0xD654]),
    ([0x8FD1], [0xADFC]), ([0x4E5D], [0xAD6C]), ([0x6761], [0xC870]), ([0x6B64], [0xCC28]),
    ([0x5CA1], [0xAC15]), ([0x535A], [0xBC15]), ([0x90A3], [0xB098]), ([0x73C2], [0xAC00]),
    ([0x5C0F], [0xC18C]), ([0x591C], [0xC57C]), ([0x9DB4], [0xD559]), ([0x6CBC], [0xC18C]),
    ([0x67F4], [0xC2DC]), ([0x6A7F], [0xAC15]), ([0x826F], [0xC591]), ([0x5730], [0xC9C0]),
    ([0x65ED], [0xC6B1]), ([0x6BBF], [0xC804]), ([0x5468], [0xC8FC]), ([0x5DDE], [0xC8FC]),
    ([0x5E61], [0xBC88]), ([0x8896], [0xC218]), ([0x6700], [0xCD5C]), ([0x679A], [0xB9E4]),
    ([0x8CB0], [0xC138]), ([0x5F85], [0xB300]), ([0x767B], [0xB4F1]), ([0x9332], [0xB85D]),
    ([0x5143], [0xC6D0]), ([0x9053], [0xB3C4]), ([0x5FB9], [0xCCA0]), ([0x5E95], [0xC800]),
    ([0x6587], [0xBB38]), ([0x90F7], [0xD5A5]), ([0x91CD], [0xC911]), ([0x8996], [0xC2DC]),
    ([0x8EFD], [0xACBD]), ([0x55AB], [0xB07D]), ([0x7159], [0xC5F0]), ([0x8D85], [0xCD08]),
    ([0x904B], [0xC6B4]), ([0x6163], [0xAD00]), ([0x5922], [0xBABD]), ([0x66FD], [0xC99D]),
    ([0x971E], [0xD558]), ([0x500D], [0xBC30]), ([0x516D], [0xC721]), ([0x6709], [0xC720]),
    ([0x8ABF], [0xC870]), ([0x5E03], [0xD3EC]), ([0x5473], [0xBBF8]), ([0x7D20], [0xC18C]),
    ([0x8131], [0xD0C8]), ([0x5165], [0xC785]), ([0x9580], [0xBB38]), ([0x706B], [0xD654]),
    ([0x5546], [0xC0C1]), ([0x68DF], [0xB3D9]), ([0x4E21], [0xC591]), ([0x9032], [0xC9C4]),
    ([0x5019], [0xD6C4]), ([0x6C17], [0xAE30]), ([0x6E29], [0xC628]), ([0x5DE6], [0xC88C]),
    ([0x53F3], [0xC6B0]), ([0x5FEB], [0xCF8C]), ([0x9069], [0xC801]), ([0x6226], [0xC804]),
    ([0x767E], [0xBC31]), ([0x9EBB], [0xB9C8]), ([0x4E07], [0xB9CC]), ([0x5999], [0xBB18]),
    ([0x5178], [0xC804]), ([0x8857], [0xAC00]), ([0x540C], [0xB3D9]), ([0x52DD], [0xC2B9]),
    ([0x9D28], [0xC555]), ([0x5C45], [0xAC70]), ([0x670D], [0xBCF5]), ([0x91C7], [0xCC44]),
    ([0x62C5], [0xB2F4]), ([0x592A], [0xD0DC]), ([0x4E95], [0xC815]), ([0x5B54], [0xACF5]),
    ([0x665F], [0xC131]), ([0x6539], [0xAC1C]), ([0x672D], [0xCC30]), ([0x8E74], [0xCD95]),
    ([0x677E], [0xC1A1]), ([0x68EE], [0xC0BC]), ([0x907D], [0xAC70]), ([0x85AC], [0xC57D]),
    ([0x6EDD], [0xC6A9]), ([0x8A3C], [0xC99D]), ([0x6E2F], [0xD56D]), ([0x8CA8], [0xD654]),
    ([0x62E1], [0xD655]), ([0x52DF], [0xBAA8]), ([0x96C6], [0xC9D1]), ([0x96E8], [0xC6B0]),
    ([0x63A8], [0xCD94]), ([0x5968], [0xC7A5]), ([0x5236], [0xC81C]), ([0x5EA6], [0xB3C4]),
    ([0x7206], [0xD3ED]), ([0x5370], [0xC778]), ([0x51AC], [0xB3D9]), ([0x71B1], [0xC5F4]),
    ([0x91CF], [0xB7C9]), ([0x53D6], [0xCDE8]), ([0x9E7F], [0xB85D]), ([0x9ED2], [0xD751]),
    ([0x6674], [0xCCAD]), ([0x9D3B], [0xD64D]), ([0x5DE3], [0xC18C]), ([0x56E3], [0xB2E8]),
    ([0x8D64], [0xC801]), ([0x5742], [0xD310]), ([0x8302], [0xBB34]), ([0x95A2], [0xAD00]),
    ([0x666F], [0xACBD]), ([0x543E], [0xC624]), ([0x59BB], [0xCC98]), ([0x6803], [0xD68C]),
    ([0x559C], [0xD76C]), ([0x99AC], [0xB9C8]), ([0x6B21], [0xCC28]), ([0x9759], [0xC815]),
    ([0x99FF], [0xC900]), ([0x4E38], [0xD658]), ([0x53B3], [0xC5C4]), ([0x7981], [0xAE08]),
    ([0x718A], [0xC6C5]), ([0x4E3B], [0xC8FC]), ([0x6804], [0xC601]), ([0x7CBE], [0xC815]),
    ([0x6F5F], [0xC11D]), ([0x7267], [0xBAA9]), ([0x7A32], [0xB3C4]), ([0x576A], [0xD3C9]),
    ([0x6FA4], [0xD0DD]), ([0x90E1], [0xAD70]), ([0x4F0F], [0xBCF5]), ([0x6843], [0xB3C4]),
    ([0x516C], [0xACF5]), ([0x5712], [0xC6D0]), ([0x73FE], [0xD604]), ([0x5728], [0xC7AC]),
    ([0x62BC], [0xC555]), ([0x9808], [0xC218]), ([0x7058], [0xD0C4]), ([0x9752], [0xCCAD]),
    ([0x81E8], [0xC784]), ([0x5CAC], [0xAC11]), ([0x5E84], [0xC7A5]), ([0x79D8], [0xBE44]),
    ([0x5BC6], [0xBC00]), ([0x6C42], [0xAD6C]), ([0x7DE8], [0xD3B8]), ([0x78E8], [0xB9C8]),
    ([0x7684], [0xC801]), ([0x660E], [0xBA85]), ([0x77F3], [0xC11D]), ([0x8CB8], [0xB300]),
    ([0x5207], [0xC808]), ([0x4EAC], [0xACBD]), ([0x6771], [0xB3D9])]"

section \<open>The transliteration function\<close>

datatype lang = Ko | Ja

text \<open>
  \<open>table[char]\<close> on one of the object literals: the value of the key, or \<open>undefined\<close>
  (\<open>None\<close>).  The tables have no key twice, and \<open>char\<close> is a string of one code unit, which
  is not the name of an inherited property.
\<close>

definition lookup :: "(jsstring \<times> jsstring) list \<Rightarrow> jsstring \<Rightarrow> jsstring option" where
  "lookup table char = map_of table char"

text \<open>\<open>if (table[char])\<close>: \<open>undefined\<close> and the empty string are falsy.\<close>

definition truthy :: "jsstring option \<Rightarrow> bool" where
  "truthy v = (case v of None \<Rightarrow> False | Some s \<Rightarrow> s \<noteq> [])"

text \<open>
  Step 1, the loop over \<open>WORD_MAP_KEYS\<close>.  The value \<open>WORD_MAP[key]\<close> is defined for every
  key of the dictionary.
\<close>

definition applyKey :: "jsstring \<Rightarrow> jsstring \<Rightarrow> jsstring" where
  "applyKey result key =
     (if includesStr result key then replaceAll result key (the (lookup WORD_MAP key)) else result)"

definition applyDictionary :: "jsstring \<Rightarrow> jsstring" where
  "applyDictionary text = foldl applyKey text WORD_MAP_KEYS"

text \<open>
  The \<open>for\<close> loop over \<open>KATAKANA_COMPOUNDS\<close> with its \<open>break\<close>: the first pair whose pattern
  equals \<open>result.substring(i, i + pattern.length)\<close>.
\<close>

fun matchCompound :: "jsstring \<Rightarrow> nat \<Rightarrow> (jsstring \<times> jsstring) list \<Rightarrow> (jsstring \<times> jsstring) option" where
  "matchCompound result i [] = None"
| "matchCompound result i ((pattern, hangul) # rest) =
     (if substring result i (i + length pattern) = pattern then Some (pattern, hangul)
      else matchCompound result i rest)"

definition PROLONGED :: jsstring where
  "PROLONGED = [0x30FC]"

text \<open>Step 2, the \<open>while\<close> loop over the characters of \<open>result\<close>.\<close>

partial_function (option) phoneticLoop :: "jsstring \<Rightarrow> nat \<Rightarrow> jsstring \<Rightarrow> jsstring option" where
  "phoneticLoop result i transliterated =
     (if i < length result then
        let char = [result ! i] in
        case matchCompound result i KATAKANA_COMPOUNDS of
          Some (pattern, hangul) \<Rightarrow>
            phoneticLoop result (i + length pattern) (transliterated @ hangul)
        | None \<Rightarrow>
            if char = PROLONGED then phoneticLoop result (i + 1) transliterated
            else if truthy (lookup KATAKANA_SINGLE char) then
              phoneticLoop result (i + 1) (transliterated @ the (lookup KATAKANA_SINGLE char))
            else if truthy (lookup HIRAGANA_SINGLE char) then
              phoneticLoop result (i + 1) (transliterated @ the (lookup HIRAGANA_SINGLE char))
            else if truthy (lookup KANJI_MAP char) then
              phoneticLoop result (i + 1) (transliterated @ the (lookup KANJI_MAP char))
            else phoneticLoop result (i + 1) (transliterated @ char)
      else Some transliterated)"

declare phoneticLoop.simps [code]

definition transliterate :: "jsstring \<Rightarrow> lang \<Rightarrow> jsstring option" where
  "transliterate text lang =
     (if text = [] then Some []
      else if lang = Ja then Some text
      else case phoneticLoop (applyDictionary text) 0 [] of
             None \<Rightarrow> None
           | Some transliterated \<Rightarrow> composeHangul transliterated)"

section \<open>The sorted keys\<close>

text \<open>
  The array \<open>WORD_MAP_KEYS\<close> as the sort leaves it: the keys by decreasing length, keys of
  one length in the order of the dictionary.
\<close>

lemma WORD_MAP_KEYS_eq [code]:
  "WORD_MAP_KEYS = [
    [0x4EE3, 0x3005, 0x6728, 0x7AF6, 0x6280, 0x5834], [0x305F, 0x307E, 0x30D7, 0x30E9, 0x30FC, 0x30B6], [0x843D, 0x5408, 0x5357, 0x9577, 0x5D0E, 0x99C5], [0x30AD, 0x30E3, 0x30F3, 0x30DA, 0x30FC, 0x30F3],
    [0x30A2, 0x30AF, 0x30BB, 0x30B9, 0x629C, 0x7FA4], [0x843D, 0x5408, 0x5357, 0x9577, 0x5D0E], [0x7DCF, 0x5408, 0x904B, 0x52D5, 0x5834], [0x30B9, 0x30BF, 0x30B8, 0x30A2, 0x30E0],
    [0x30DC, 0x30F3, 0x30D5, 0x30A3, 0x30F3], [0x30D5, 0x30C3, 0x30C8, 0x30B5, 0x30EB], [0x30AB, 0x30C6, 0x30B4, 0x30EA, 0x30FC], [0x30A8, 0x30F3, 0x30B8, 0x30E7, 0x30A4],
    [0x30A2, 0x30A6, 0x30C8, 0x30C9, 0x30A2], [0x7DBA, 0x9E97, 0x306A, 0x65BD, 0x8A2D], [0x5C4B, 0x5185, 0x30B3, 0x30FC, 0x30C8], [0x521D, 0x5FC3, 0x8005, 0x6B53, 0x8FCE],
    [0x7D4C, 0x9A13, 0x8005, 0x5411, 0x3051], [0x306E, 0x7DBA, 0x9E97, 0x306A], [0x6075, 0x6BD4, 0x5BFF, 0x99C5], [0x79CB, 0x8449, 0x539F, 0x99C5],
    [0x516D, 0x672C, 0x6728, 0x99C5], [0x9EBB, 0x5E03, 0x5341, 0x756A], [0x9AD8, 0x7530, 0x99AC, 0x5834], [0x65B0, 0x5927, 0x4E45, 0x4FDD],
    [0x4E09, 0x8ED2, 0x8336, 0x5C4B], [0x81EA, 0x7531, 0x304C, 0x4E18], [0x4E8C, 0x5B50, 0x7389, 0x5DDD], [0x6B66, 0x8535, 0x5C0F, 0x6749],
    [0x76F8, 0x6A21, 0x5927, 0x91CE], [0x897F, 0x65E5, 0x66AE, 0x91CC], [0x9580, 0x524D, 0x4EF2, 0x753A], [0x6D77, 0x6D5C, 0x5E55, 0x5F35],
    [0x30A2, 0x30EA, 0x30FC, 0x30CA], [0x30BB, 0x30F3, 0x30BF, 0x30FC], [0x30B5, 0x30C3, 0x30AB, 0x30FC], [0x30B9, 0x30DD, 0x30FC, 0x30C4],
    [0x30A2, 0x30AF, 0x30BB, 0x30B9], [0x30B5, 0x30FC, 0x30D3, 0x30B9], [0x30B9, 0x30C6, 0x30FC, 0x30B8], [0x30DF, 0x30C3, 0x30AF, 0x30B9],
    [0x30D3, 0x30AE, 0x30CA, 0x30FC], [0x30A4, 0x30F3, 0x30C9, 0x30A2], [0x500B, 0x4EBA, 0x53C2, 0x52A0], [0x5B8C, 0x5168, 0x5BA4, 0x5185],
    [0x3067, 0x3059, 0xFF01], [0x3067, 0x3059, 0x3002], [0x307E, 0x3059, 0xFF01], [0x307E, 0x3059, 0x3002],
    [0x306E, 0x65BD, 0x8A2D], [0x4EE3, 0x3005, 0x6728], [0x539F, 0x5BBF, 0x99C5], [0x6E0B, 0x8C37, 0x99C5],
    [0x65B0, 0x5BBF, 0x99C5], [0x6C60, 0x888B, 0x99C5], [0x9280, 0x5EA7, 0x99C5], [0x6771, 0x4EAC, 0x99C5],
    [0x54C1, 0x5DDD, 0x99C5], [0x76EE, 0x9ED2, 0x99C5], [0x6075, 0x6BD4, 0x5BFF], [0x79CB, 0x8449, 0x539F],
    [0x4E0A, 0x91CE, 0x99C5], [0x6D45, 0x8349, 0x99C5], [0x516D, 0x672C, 0x6728], [0x8D64, 0x5742, 0x99C5],
    [0x304A, 0x53F0, 0x5834], [0x9326, 0x7CF8, 0x753A], [0x5927, 0x4E95, 0x753A], [0x4E94, 0x53CD, 0x7530],
    [0x6D5C, 0x677E, 0x753A], [0x5409, 0x7965, 0x5BFA], [0x516B, 0x738B, 0x5B50], [0x4E0B, 0x5317, 0x6CA2],
    [0x4E2D, 0x76EE, 0x9ED2], [0x6E9D, 0x306E, 0x53E3], [0x5927, 0x5009, 0x5C71], [0x6A2A, 0x6D5C, 0x99C5],
    [0x5DDD, 0x5D0E, 0x99C5], [0x6C5F, 0x30CE, 0x5CF6], [0x8305, 0x30F6, 0x5D0E], [0x5C0F, 0x7530, 0x539F],
    [0x6D77, 0x8001, 0x540D], [0x5357, 0x9577, 0x5D0E], [0x65E5, 0x672C, 0x6A4B], [0x6C34, 0x9053, 0x6A4B],
    [0x98EF, 0x7530, 0x6A4B], [0x795E, 0x697D, 0x5742], [0x5F8C, 0x697D, 0x5712], [0x65E5, 0x66AE, 0x91CC],
    [0x5317, 0x5343, 0x4F4F], [0x5357, 0x5343, 0x4F4F], [0x65B0, 0x6728, 0x5834], [0x897F, 0x845B, 0x897F],
    [0x6D25, 0x7530, 0x6CBC], [0x6625, 0x65E5, 0x90E8], [0x5927, 0x962A, 0x99C5], [0x5FC3, 0x658E, 0x6A4B],
    [0x5929, 0x738B, 0x5BFA], [0x65B0, 0x5927, 0x962A], [0x6DC0, 0x5C4B, 0x6A4B], [0x540D, 0x53E4, 0x5C4B],
    [0x5317, 0x4E5D, 0x5DDE], [0x7AF6, 0x6280, 0x5834], [0x4F53, 0x80B2, 0x9928], [0x904B, 0x52D5, 0x5834],
    [0x30C9, 0x30FC, 0x30E0], [0x30D1, 0x30FC, 0x30AF], [0x99C5, 0x5F92, 0x6B69], [0x99C5, 0x76F4, 0x7D50],
    [0x4E2D, 0x592E, 0x53E3], [0x30B3, 0x30FC, 0x30C8], [0x30B3, 0x30B5, 0x30EB], [0x30A2, 0x30B9, 0x30BF],
    [0x30EC, 0x30D9, 0x30EB], [0x671D, 0x30A4, 0x30C1], [0x500B, 0x30B5, 0x30EB], [0x521D, 0x5FC3, 0x8005],
    [0x7D4C, 0x9A13, 0x8005], [0x3067, 0x3059], [0x307E, 0x3059], [0x539F, 0x5BBF],
    [0x6E0B, 0x8C37], [0x65B0, 0x5BBF], [0x6C60, 0x888B], [0x9280, 0x5EA7],
    [0x6771, 0x4EAC], [0x54C1, 0x5DDD], [0x76EE, 0x9ED2], [0x4E0A, 0x91CE],
    [0x6D45, 0x8349], [0x8D64, 0x5742], [0x9EBB, 0x5E03], [0x53F0, 0x5834],
    [0x84B2, 0x7530], [0x7530, 0x753A], [0x4E2D, 0x91CE], [0x837B, 0x7AAA],
    [0x4E09, 0x9DF9], [0x8ABF, 0x5E03], [0x5E9C, 0x4E2D], [0x753A, 0x7530],
    [0x7ACB, 0x5DDD], [0x65E5, 0x5409], [0x83CA, 0x540D], [0x7DB1, 0x5CF6],
    [0x767D, 0x697D], [0x6A2A, 0x6D5C], [0x5DDD, 0x5D0E], [0x9DB4, 0x898B],
    [0x6238, 0x585A], [0x85E4, 0x6CA2], [0x5927, 0x8239], [0x938C, 0x5009],
    [0x5E73, 0x585A], [0x539A, 0x6728], [0x6A4B, 0x672C], [0x843D, 0x5408],
    [0x5DE3, 0x9D28], [0x99D2, 0x8FBC], [0x4E80, 0x6238], [0x4E21, 0x56FD],
    [0x8C4A, 0x6D32], [0x6709, 0x660E], [0x845B, 0x897F], [0x8239, 0x6A4B],
    [0x5343, 0x8449], [0x5E55, 0x5F35], [0x677E, 0x6238], [0x53D6, 0x624B],
    [0x5927, 0x5BAE], [0x6D66, 0x548C], [0x5DDD, 0x53E3], [0x8349, 0x52A0],
    [0x8D8A, 0x8C37], [0x6240, 0x6CA2], [0x5DDD, 0x8D8A], [0x5927, 0x962A],
    [0x6885, 0x7530], [0x96E3, 0x6CE2], [0x4EAC, 0x6A4B], [0x672C, 0x753A],
    [0x4EAC, 0x90FD], [0x795E, 0x6238], [0x798F, 0x5CA1], [0x672D, 0x5E4C],
    [0x4ED9, 0x53F0], [0x5E83, 0x5CF6], [0x90A3, 0x8987], [0x516C, 0x5712],
    [0x5E83, 0x5834], [0x5F92, 0x6B69], [0x76F4, 0x7D50], [0x51FA, 0x53E3],
    [0x5317, 0x53E3], [0x5357, 0x53E3], [0x6771, 0x53E3], [0x897F, 0x53E3],
    [0x5C4B, 0x5916], [0x5C4B, 0x4E0A], [0x5BA4, 0x5185], [0x5C4B, 0x5185],
    [0x4E2D, 0x7D1A], [0x4E0A, 0x7D1A], [0x521D, 0x7D1A], [0x5973, 0x6027],
    [0x7537, 0x6027], [0x4E2D, 0x6B62], [0x958B, 0x50AC], [0x5272, 0x5F15],
    [0x52DF, 0x96C6], [0x7DBA, 0x9E97], [0x629C, 0x7FA4], [0x306E],
    [0xFF5E], [0x67CF], [0x5206], [0x79D2]]"
  by code_simp

section \<open>Basic facts about the string functions\<close>

lemma startsWith_set: "startsWith s p \<Longrightarrow> set p \<subseteq> set s"
  by (induction s p rule: startsWith.induct) auto

lemma includesStr_set: "includesStr s p \<Longrightarrow> set p \<subseteq> set s"
  by (induction s p rule: includesStr.induct) (auto dest!: startsWith_set)

lemma matchCompound_SomeD:
  "matchCompound r i tab = Some (p, h) \<Longrightarrow> (p, h) \<in> set tab \<and> substring r i (i + length p) = p"
  by (induction tab) (auto split: if_splits)

lemma compounds_nonempty: "(p, h) \<in> set KATAKANA_COMPOUNDS \<Longrightarrow> p \<noteq> []"
  by (auto simp: KATAKANA_COMPOUNDS_def)

section \<open>Both loops return\<close>

text \<open>
  The cursor of the phonetic scan moves by the length of a matched pattern, which is never
  empty, or by one; the distance to the end of the string decreases at every iteration.
\<close>

lemma phoneticLoop_total: "\<exists>out. phoneticLoop r i acc = Some out"
proof (induction "length r - i" arbitrary: i acc rule: less_induct)
  case less
  show ?case
  proof (cases "i < length r")
    case False
    then show ?thesis by (subst phoneticLoop.simps) simp
  next
    case True
    have step: "\<exists>out. phoneticLoop r j a = Some out" if "i < j" for j a
      using less [of j a] True that by (simp add: diff_less_mono2)
    have cmp: "p \<noteq> []" if "matchCompound r i KATAKANA_COMPOUNDS = Some (p, h)" for p h
      using matchCompound_SomeD [OF that] compounds_nonempty by auto
    show ?thesis
      by (subst phoneticLoop.simps)
        (auto simp: Let_def True intro!: step dest: cmp split: option.splits)
  qed
qed

text \<open>The cursor of \<open>composeHangul\<close> moves by one, two or three at every iteration.\<close>

lemma composeLoop_total: "\<exists>out. composeLoop t i acc = Some out"
proof (induction "length t - i" arbitrary: i acc rule: less_induct)
  case less
  show ?case
  proof (cases "i < length t")
    case False
    then show ?thesis by (subst composeLoop.simps) simp
  next
    case True
    have step: "\<exists>out. composeLoop t j a = Some out" if "i < j" for j a
      using less [of j a] True that by (simp add: diff_less_mono2)
    show ?thesis
      by (subst composeLoop.simps) (auto simp: Let_def True step split: option.splits)
  qed
qed

section \<open>Pass-through and totality\<close>

text \<open>
  Claim C1.  For every string \<open>x\<close>, the empty string included, \<open>transliterate(x, "ja")\<close>
  returns exactly \<open>x\<close>.
\<close>

theorem transliterate_ja_identity: "transliterate x Ja = Some x"
  by (simp add: transliterate_def)

text \<open>
  Claim C2.  For every string \<open>x\<close>, \<open>transliterate(x, "ko")\<close> returns a string: the loop
  over the dictionary keys is a loop over a finite array, the phonetic scan and
  \<open>composeHangul\<close> advance their cursor at every iteration, and no branch of the function
  applies an operation to \<open>undefined\<close> or \<open>null\<close>.
\<close>

theorem transliterate_ko_total: "\<exists>y. transliterate x Ko = Some y"
proof -
  obtain t where t: "phoneticLoop (applyDictionary x) 0 [] = Some t"
    using phoneticLoop_total by blast
  obtain y where y: "composeLoop t 0 [] = Some y"
    using composeLoop_total by blast
  show ?thesis
    by (simp add: transliterate_def composeHangul_def t y)
qed

section \<open>The composition loop, one iteration at a time\<close>

lemma composeLoop_end: "length t \<le> i \<Longrightarrow> composeLoop t i acc = Some acc"
  by (subst composeLoop.simps) simp

lemma composeLoop_step:
  "i < length t \<Longrightarrow>
   composeLoop t i acc = composeLoop t (i + fst (composeStep t i)) (acc @ snd (composeStep t i))"
  by (subst composeLoop.simps) (simp add: composeStep_def Let_def split: option.splits)

lemma composeStep_pos: "0 < fst (composeStep t i)"
  by (simp add: composeStep_def Let_def split: option.splits)

lemma charAt_drop: "charAt (drop i t) k = charAt t (i + k)"
  by (auto simp: charAt_def)

lemma composeStep_drop: "i < length t \<Longrightarrow> composeStep (drop i t) 0 = composeStep t i"
  by (simp add: composeStep_def charAt_drop Let_def)

lemma composeLoop_drop:
  "composeLoop t i acc = map_option ((@) acc) (composeLoop (drop i t) 0 [])"
proof (induction "length t - i" arbitrary: t i acc rule: less_induct)
  case less
  show ?case
  proof (cases "i < length t")
    case False
    then show ?thesis by (simp add: composeLoop_end)
  next
    case True
    define n where "n = fst (composeStep t i)"
    define e where "e = snd (composeStep t i)"
    have n: "0 < n" by (simp add: n_def composeStep_pos)
    have st: "composeStep (drop i t) 0 = (n, e)"
      using True by (simp add: composeStep_drop n_def e_def)
    have l: "composeLoop t i acc = composeLoop t (i + n) (acc @ e)"
      using composeLoop_step [OF True] by (simp add: n_def e_def)
    have "composeLoop t (i + n) (acc @ e)
          = map_option ((@) (acc @ e)) (composeLoop (drop (i + n) t) 0 [])"
      using less(1) [of t "i + n" "acc @ e"] True n by simp
    moreover have "composeLoop (drop i t) 0 [] = composeLoop (drop i t) n e"
      using composeLoop_step [of 0 "drop i t" "[]"] True st by simp
    moreover have "composeLoop (drop i t) n e
          = map_option ((@) e) (composeLoop (drop n (drop i t)) 0 [])"
      using less(1) [of "drop i t" n e] True n by simp
    moreover have "(@) acc \<circ> (@) e = (@) (acc @ e)"
      by (simp add: fun_eq_iff)
    ultimately show ?thesis
      using l by (simp add: option.map_comp add.commute)
  qed
qed

lemma composeHangul_loop: "composeHangul t = composeLoop t 0 []"
  by (simp add: composeHangul_def composeLoop_end)

lemma composeHangul_step:
  assumes "t \<noteq> []"
  shows "composeHangul t
         = map_option ((@) (snd (composeStep t 0))) (composeHangul (drop (fst (composeStep t 0)) t))"
proof -
  have "composeLoop t 0 [] = composeLoop t (fst (composeStep t 0)) (snd (composeStep t 0))"
    using composeLoop_step [of 0 t "[]"] assms by simp
  then show ?thesis
    using composeLoop_drop [of t "fst (composeStep t 0)" "snd (composeStep t 0)"]
    by (simp add: composeHangul_loop)
qed

section \<open>Jamo tables, indices and the syllable code\<close>

lemma includesStr_single: "includesStr s [c] \<longleftrightarrow> c \<in> set s"
  by (induction s) auto

lemma indexOfFrom_single:
  "distinct s \<Longrightarrow> k < length s \<Longrightarrow> indexOfFrom s [s ! k] j = int (j + k)"
proof (induction s arbitrary: k j)
  case Nil
  then show ?case by simp
next
  case (Cons x xs)
  show ?case
  proof (cases k)
    case 0
    then show ?thesis by simp
  next
    case (Suc m)
    with Cons.prems have "xs ! m \<noteq> x" "m < length xs" "distinct xs"
      by auto
    with Cons.IH [of m "Suc j"] Suc show ?thesis by simp
  qed
qed

lemma indexOf_nth: "distinct s \<Longrightarrow> k < length s \<Longrightarrow> indexOf s [s ! k] = int k"
  by (simp add: indexOf_def indexOfFrom_single)

lemma indexOf_member:
  assumes "distinct s" "c \<in> set s"
  shows "0 \<le> indexOf s [c] \<and> indexOf s [c] < int (length s) \<and> s ! nat (indexOf s [c]) = c"
proof -
  obtain k where "k < length s" "s ! k = c"
    using assms(2) by (auto simp: in_set_conv_nth)
  then show ?thesis
    using indexOf_nth [OF assms(1), of k] by simp
qed

lemma distinct_INITIALS: "distinct INITIALS"
  by (simp add: INITIALS_def)

lemma length_INITIALS: "length INITIALS = 19"
  by (simp add: INITIALS_def)

lemma distinct_MEDIALS: "distinct MEDIALS"
  by (simp add: MEDIALS_def)

lemma length_MEDIALS: "length MEDIALS = 21"
  by (simp add: MEDIALS_def)

lemma distinct_FINALS: "distinct FINALS"
  by (simp add: FINALS_def)

lemma length_FINALS: "length FINALS = 28"
  by (simp add: FINALS_def)

lemma FINALS_0: "FINALS ! 0 = 0"
  by (simp add: FINALS_def)

lemma isInitial_iff: "isInitial [c] \<longleftrightarrow> c \<in> set INITIALS"
  by (simp add: isInitial_def includesStr_single)

lemma isMedial_iff: "isMedial [c] \<longleftrightarrow> c \<in> set MEDIALS"
  by (simp add: isMedial_def includesStr_single)

lemma isFinal_iff: "isFinal [c] \<longleftrightarrow> c \<noteq> 0 \<and> c \<in> set FINALS"
  by (simp add: isFinal_def includesStr_single)

lemma syllable_arith:
  fixes a b c :: int
  assumes "0 \<le> a" "a < 19" "0 \<le> b" "b < 21" "0 \<le> c" "c < 28"
  shows "((a * 21 + b) * 28 + c) div 588 = a"
    and "(((a * 21 + b) * 28 + c) mod 588) div 28 = b"
    and "((a * 21 + b) * 28 + c) mod 28 = c"
    and "0 \<le> (a * 21 + b) * 28 + c" and "(a * 21 + b) * 28 + c \<le> 11171"
proof -
  have e: "(a * 21 + b) * 28 + c = a * 588 + (b * 28 + c)"
    by (simp add: algebra_simps)
  have r: "0 \<le> b * 28 + c" "b * 28 + c < 588"
    using assms by auto
  show "((a * 21 + b) * 28 + c) div 588 = a"
    unfolding e using r by (simp add: div_pos_pos_trivial)
  have m: "((a * 21 + b) * 28 + c) mod 588 = b * 28 + c"
    unfolding e using r by (simp add: mod_pos_pos_trivial)
  show "(((a * 21 + b) * 28 + c) mod 588) div 28 = b"
    unfolding m using assms by (simp add: div_pos_pos_trivial)
  have "(c + (a * 21 + b) * 28) mod 28 = c mod 28"
    by (rule mod_mult_self1)
  then show "((a * 21 + b) * 28 + c) mod 28 = c"
    using assms by (simp add: add.commute mod_pos_pos_trivial)
  show "0 \<le> (a * 21 + b) * 28 + c" "(a * 21 + b) * 28 + c \<le> 11171"
    using assms by auto
qed

lemma composeHangulSyllable_code:
  assumes "ini \<in> set INITIALS" "med \<in> set MEDIALS" "fin = [] \<or> (\<exists>f \<in> set FINALS. fin = [f])"
  shows "composeHangulSyllable [ini] [med] fin
         = [HANGUL_BASE + (indexOf INITIALS [ini] * 21 + indexOf MEDIALS [med]) * 28
              + (if fin = [] then 0 else indexOf FINALS fin)]"
proof -
  define a where "a = indexOf INITIALS [ini]"
  define b where "b = indexOf MEDIALS [med]"
  define c where "c = (if fin = [] then 0 else indexOf FINALS fin)"
  have a: "0 \<le> a" "a < 19"
    using indexOf_member [OF distinct_INITIALS assms(1)] by (simp_all add: a_def length_INITIALS)
  have b: "0 \<le> b" "b < 21"
    using indexOf_member [OF distinct_MEDIALS assms(2)] by (simp_all add: b_def length_MEDIALS)
  have c: "0 \<le> c" "c < 28"
    using assms(3) indexOf_member [OF distinct_FINALS] by (auto simp: c_def length_FINALS)
  have "0 \<le> (a * 21 + b) * 28 + c" "(a * 21 + b) * 28 + c \<le> 11171"
    using syllable_arith(4,5) [OF a b c] by simp_all
  then have "(HANGUL_BASE + (a * 21 + b) * 28 + c) mod 65536 = HANGUL_BASE + (a * 21 + b) * 28 + c"
    by (simp add: HANGUL_BASE_def)
  then show ?thesis
    using a b c
    by (simp add: composeHangulSyllable_def Let_def fromCharCode_def MEDIAL_COUNT_def
        FINAL_COUNT_def a_def [symmetric] b_def [symmetric] c_def [symmetric])
qed

lemma decomposeHangul_code:
  fixes a b c :: int
  assumes "0 \<le> a" "a < 19" "0 \<le> b" "b < 21" "0 \<le> c" "c < 28"
  shows "decomposeHangul [HANGUL_BASE + (a * 21 + b) * 28 + c]
         = Some \<lparr> initial = [INITIALS ! nat a], medial = [MEDIALS ! nat b],
                  final = (if c = 0 then [] else [FINALS ! nat c]) \<rparr>"
proof -
  define n where "n = (a * 21 + b) * 28 + c"
  have n: "n div 588 = a" "(n mod 588) div 28 = b" "n mod 28 = c" "0 \<le> n" "n \<le> 11171"
    using syllable_arith [OF assms] by (simp_all add: n_def)
  have eq: "HANGUL_BASE + (a * 21 + b) * 28 + c = HANGUL_BASE + n"
    by (simp add: n_def)
  have "decomposeHangul [HANGUL_BASE + n]
        = Some \<lparr> initial = [INITIALS ! nat a], medial = [MEDIALS ! nat b],
                 final = (if c = 0 then [] else [FINALS ! nat c]) \<rparr>"
    using n by (simp add: decomposeHangul_def charCodeAt0_def Let_def MEDIAL_COUNT_def FINAL_COUNT_def)
  then show ?thesis
    unfolding eq .
qed

lemma roundtrip_jamos:
  assumes "ini \<in> set INITIALS" "med \<in> set MEDIALS"
    and "fin = [] \<or> (\<exists>f \<in> set FINALS. f \<noteq> 0 \<and> fin = [f])"
  shows "decomposeHangul (composeHangulSyllable [ini] [med] fin)
         = Some \<lparr> initial = [ini], medial = [med], final = fin \<rparr>"
proof -
  define a where "a = indexOf INITIALS [ini]"
  define b where "b = indexOf MEDIALS [med]"
  define c where "c = (if fin = [] then 0 else indexOf FINALS fin)"
  have a: "0 \<le> a" "a < 19" "INITIALS ! nat a = ini"
    using indexOf_member [OF distinct_INITIALS assms(1)] by (simp_all add: a_def length_INITIALS)
  have b: "0 \<le> b" "b < 21" "MEDIALS ! nat b = med"
    using indexOf_member [OF distinct_MEDIALS assms(2)] by (simp_all add: b_def length_MEDIALS)
  have c: "0 \<le> c" "c < 28"
    using assms(3) indexOf_member [OF distinct_FINALS] by (auto simp: c_def length_FINALS)
  have fin: "(if c = 0 then [] else [FINALS ! nat c]) = fin"
  proof (cases "fin = []")
    case True
    then show ?thesis by (simp add: c_def)
  next
    case False
    then obtain f where f: "f \<in> set FINALS" "f \<noteq> 0" "fin = [f]"
      using assms(3) by auto
    have "FINALS ! nat (indexOf FINALS [f]) = f"
      using indexOf_member [OF distinct_FINALS f(1)] by simp
    moreover from this f(2) have "indexOf FINALS [f] \<noteq> 0"
      using FINALS_0 by auto
    ultimately show ?thesis
      using f by (simp add: c_def)
  qed
  have "composeHangulSyllable [ini] [med] fin = [HANGUL_BASE + (a * 21 + b) * 28 + c]"
    using composeHangulSyllable_code [OF assms(1,2)] assms(3)
    by (auto simp: a_def b_def c_def)
  then show ?thesis
    using decomposeHangul_code [OF a(1,2) b(1,2) c] a(3) b(3) fin by simp
qed

text \<open>
  Claim C10.  For every initial of the 19-entry table, every medial of the 21-entry table
  and every final that is the empty string or an entry of the 28-entry table other than
  the null character, \<open>decomposeHangul(composeHangulSyllable(initial, medial, final))\<close>
  returns exactly that initial, medial and final.
\<close>

theorem decompose_compose_roundtrip:
  assumes "ini \<in> set INITIALS" "med \<in> set MEDIALS"
    and "fin = [] \<or> (\<exists>f \<in> set FINALS. f \<noteq> 0 \<and> fin = [f])"
  shows "decomposeHangul (composeHangulSyllable [ini] [med] fin)
         = Some \<lparr> initial = [ini], medial = [med], final = fin \<rparr>"
  using assms by (rule roundtrip_jamos)

theorem decompose_compose_roundtrip_witness:
  "decomposeHangul (composeHangulSyllable [0x3131] [0x314F] [0x3134])
     = Some \<lparr> initial = [0x3131], medial = [0x314F], final = [0x3134] \<rparr>
   \<and> decomposeHangul (composeHangulSyllable [0x314E] [0x3163] [])
     = Some \<lparr> initial = [0x314E], medial = [0x3163], final = [] \<rparr>"
  using decompose_compose_roundtrip [of "0x3131" "0x314F" "[0x3134]"]
    decompose_compose_roundtrip [of "0x314E" "0x3163" "[]"]
  by (simp add: INITIALS_def MEDIALS_def FINALS_def)

section \<open>The lookahead of the composition loop\<close>

lemma andDefined_charAt: "andDefined (charAt t k) p \<longleftrightarrow> k < length t \<and> p [t ! k]"
  by (simp add: andDefined_def charAt_def)

lemma the_charAt: "k < length t \<Longrightarrow> the (charAt t k) = [t ! k]"
  by (simp add: charAt_def)

lemma initial_not_syllable: "isInitial [c] \<Longrightarrow> \<not> isHangulSyllable [c]"
  by (auto simp: isInitial_iff INITIALS_def isHangulSyllable_def charCodeAt0_def HANGUL_BASE_def)

lemma final_not_syllable: "isFinal [c] \<Longrightarrow> \<not> isHangulSyllable [c]"
  by (auto simp: isFinal_iff FINALS_def isHangulSyllable_def charCodeAt0_def HANGUL_BASE_def)

lemma composeLoop_batchim:
  assumes "i + 2 < length t" "isInitial [t ! i]" "isMedial [t ! (i + 1)]" "isFinal [t ! (i + 2)]"
    and "i + 3 < length t \<longrightarrow> \<not> isMedial [t ! (i + 3)]"
  shows "composeLoop t i acc
         = composeLoop t (i + 3) (acc @ composeHangulSyllable [t ! i] [t ! (i + 1)] [t ! (i + 2)])"
  using assms
  by (subst composeLoop.simps)
    (auto simp: Let_def andDefined_charAt initial_not_syllable the_charAt)

lemma composeLoop_onset:
  assumes "i + 3 < length t" "isInitial [t ! i]" "isMedial [t ! (i + 1)]" "isFinal [t ! (i + 2)]"
    and "isMedial [t ! (i + 3)]"
  shows "composeLoop t i acc
         = composeLoop t (i + 2) (acc @ composeHangulSyllable [t ! i] [t ! (i + 1)] [])"
  using assms
  by (subst composeLoop.simps)
    (simp add: Let_def andDefined_charAt initial_not_syllable the_charAt)

lemma composeLoop_initial_medial:
  assumes "i + 1 < length t" "isInitial [t ! i]" "isMedial [t ! (i + 1)]"
  shows "\<exists>k fin. (fin = [] \<or> (\<exists>f \<in> set FINALS. f \<noteq> 0 \<and> fin = [f])) \<and>
           (\<forall>acc. composeLoop t i acc
              = composeLoop t (i + k) (acc @ composeHangulSyllable [t ! i] [t ! (i + 1)] fin))"
proof (cases "andDefined (charAt t (i + 2)) isFinal \<and> \<not> andDefined (charAt t (i + 3)) isMedial")
  case True
  then have f: "t ! (i + 2) \<in> set FINALS" "t ! (i + 2) \<noteq> 0"
    by (simp_all add: andDefined_charAt isFinal_iff)
  have "\<forall>acc. composeLoop t i acc
      = composeLoop t (i + 3) (acc @ composeHangulSyllable [t ! i] [t ! (i + 1)] [t ! (i + 2)])"
    using True assms composeLoop_batchim [of i t] by (simp add: andDefined_charAt)
  with f show ?thesis by blast
next
  case False
  have "\<forall>acc. composeLoop t i acc
      = composeLoop t (i + 2) (acc @ composeHangulSyllable [t ! i] [t ! (i + 1)] [])"
  proof
    fix acc
    show "composeLoop t i acc
      = composeLoop t (i + 2) (acc @ composeHangulSyllable [t ! i] [t ! (i + 1)] [])"
      using False assms
      by (subst composeLoop.simps)
        (auto simp: Let_def andDefined_charAt initial_not_syllable the_charAt)
  qed
  then show ?thesis by blast
qed

lemma composeLoop_loose:
  assumes "i < length t" "\<not> isHangulSyllable [t ! i]" "\<not> isInitial [t ! i]"
  shows "composeLoop t i acc = composeLoop t (i + 1) (acc @ [t ! i])"
  using assms by (subst composeLoop.simps) (simp add: Let_def)

lemma composeLoop_suffix:
  "composeLoop t i acc = map_option (\<lambda>out. acc @ out) (composeHangul (drop i t))"
  using composeLoop_drop [of t i acc] by (simp add: composeHangul_loop)

lemmas compose_eval = composeHangul_def composeLoop.simps Let_def isHangulSyllable_def
  charCodeAt0_def HANGUL_BASE_def isInitial_def isMedial_def isFinal_def INITIALS_def MEDIALS_def
  FINALS_def charAt_def andDefined_def composeHangulSyllable_def indexOf_def fromCharCode_def
  MEDIAL_COUNT_def FINAL_COUNT_def decomposeHangul_def

text \<open>
  Claim C4.  When the cursor of the composition loop stands on a valid initial jamo
  followed by a valid medial jamo, a valid final jamo and then a character that is not a
  valid medial (or the end of the input), the three jamo are composed into the single
  syllable whose code is \<open>BASE + (initialIndex * 21 + medialIndex) * 28 + finalIndex\<close>,
  each index being the position of the jamo in its table, and the scan goes on behind them.
\<close>

theorem compose_initial_medial_final:
  assumes "i + 2 < length t" "isInitial [t ! i]" "isMedial [t ! (i + 1)]" "isFinal [t ! (i + 2)]"
    and "i + 3 < length t \<longrightarrow> \<not> isMedial [t ! (i + 3)]"
  shows "let initialIndex = indexOf INITIALS [t ! i];
             medialIndex = indexOf MEDIALS [t ! (i + 1)];
             finalIndex = indexOf FINALS [t ! (i + 2)];
             code = HANGUL_BASE + (initialIndex * 21 + medialIndex) * 28 + finalIndex
         in 0 \<le> initialIndex \<and> INITIALS ! nat initialIndex = t ! i
          \<and> 0 \<le> medialIndex \<and> MEDIALS ! nat medialIndex = t ! (i + 1)
          \<and> 0 < finalIndex \<and> FINALS ! nat finalIndex = t ! (i + 2)
          \<and> composeLoop t i acc = composeLoop t (i + 3) (acc @ [code])
          \<and> composeLoop t i acc
              = map_option (\<lambda>out. acc @ code # out) (composeHangul (drop (i + 3) t))"
proof -
  have m: "t ! i \<in> set INITIALS" "t ! (i + 1) \<in> set MEDIALS"
    "t ! (i + 2) \<in> set FINALS" "t ! (i + 2) \<noteq> 0"
    using assms by (simp_all add: isInitial_iff isMedial_iff isFinal_iff)
  note ia = indexOf_member [OF distinct_INITIALS m(1)]
  note ib = indexOf_member [OF distinct_MEDIALS m(2)]
  note ic = indexOf_member [OF distinct_FINALS m(3)]
  have pos: "0 < indexOf FINALS [t ! (i + 2)]"
  proof (rule ccontr)
    assume "\<not> 0 < indexOf FINALS [t ! (i + 2)]"
    with ic have "indexOf FINALS [t ! (i + 2)] = 0" by simp
    with ic m(4) show False by (simp add: FINALS_0)
  qed
  have code: "composeHangulSyllable [t ! i] [t ! (i + 1)] [t ! (i + 2)]
      = [HANGUL_BASE + (indexOf INITIALS [t ! i] * 21 + indexOf MEDIALS [t ! (i + 1)]) * 28
          + indexOf FINALS [t ! (i + 2)]]"
    using composeHangulSyllable_code [OF m(1,2), of "[t ! (i + 2)]"] m(3) by simp
  have step: "composeLoop t i acc
      = composeLoop t (i + 3) (acc @ composeHangulSyllable [t ! i] [t ! (i + 1)] [t ! (i + 2)])"
    using assms by (rule composeLoop_batchim)
  have "composeLoop t (i + 3) (acc @ composeHangulSyllable [t ! i] [t ! (i + 1)] [t ! (i + 2)])
      = map_option (\<lambda>out. (acc @ composeHangulSyllable [t ! i] [t ! (i + 1)] [t ! (i + 2)]) @ out)
          (composeHangul (drop (i + 3) t))"
    by (rule composeLoop_suffix)
  with step code ia ib ic pos show ?thesis
    by (simp add: Let_def)
qed

theorem compose_initial_medial_final_witness:
  "composeHangul [0x3131, 0x314F, 0x3134] = Some [0xAC04]
   \<and> composeHangul [0x314E, 0x314F, 0x3134, 0x0041] = Some [0xD55C, 0x0041]"
  using compose_initial_medial_final [of 0 "[0x3131, 0x314F, 0x3134]" "[]"]
    compose_initial_medial_final [of 0 "[0x314E, 0x314F, 0x3134, 0x0041]" "[]"]
  by (simp add: compose_eval)

text \<open>
  Claim C5, as the code has it.  When the cursor stands on a valid initial jamo followed by
  a valid medial, a valid final candidate and another valid medial, the candidate is not
  consumed as a batchim: the first two jamo are emitted as the syllable of that initial
  and medial with no final, and the scan resumes at the candidate.  The candidate starts
  the next syllable when it is also a valid initial jamo; a candidate that is a final only
  (a consonant cluster) is emitted unchanged.
\<close>

theorem lookahead_candidate_final:
  assumes "i + 3 < length t" "isInitial [t ! i]" "isMedial [t ! (i + 1)]" "isFinal [t ! (i + 2)]"
    and "isMedial [t ! (i + 3)]"
  shows "composeLoop t i acc
           = composeLoop t (i + 2)
               (acc @ [HANGUL_BASE + (indexOf INITIALS [t ! i] * 21 + indexOf MEDIALS [t ! (i + 1)]) * 28])
       \<and> (isInitial [t ! (i + 2)] \<longrightarrow>
            (\<exists>k fin. decomposeHangul (composeHangulSyllable [t ! (i + 2)] [t ! (i + 3)] fin)
                        = Some \<lparr> initial = [t ! (i + 2)], medial = [t ! (i + 3)], final = fin \<rparr>
                    \<and> (\<forall>acc'. composeLoop t (i + 2) acc'
                          = composeLoop t (i + 2 + k)
                              (acc' @ composeHangulSyllable [t ! (i + 2)] [t ! (i + 3)] fin))))
       \<and> (\<not> isInitial [t ! (i + 2)] \<longrightarrow>
            (\<forall>acc'. composeLoop t (i + 2) acc' = composeLoop t (i + 3) (acc' @ [t ! (i + 2)])))"
proof (intro conjI impI)
  have m: "t ! i \<in> set INITIALS" "t ! (i + 1) \<in> set MEDIALS"
    using assms by (simp_all add: isInitial_iff isMedial_iff)
  have "composeHangulSyllable [t ! i] [t ! (i + 1)] []
      = [HANGUL_BASE + (indexOf INITIALS [t ! i] * 21 + indexOf MEDIALS [t ! (i + 1)]) * 28]"
    using composeHangulSyllable_code [OF m, of "[]"] by simp
  then show "composeLoop t i acc
           = composeLoop t (i + 2)
               (acc @ [HANGUL_BASE + (indexOf INITIALS [t ! i] * 21 + indexOf MEDIALS [t ! (i + 1)]) * 28])"
    using composeLoop_onset [OF assms, of acc] by simp
next
  assume ini: "isInitial [t ! (i + 2)]"
  have e: "i + 2 + 1 = i + 3"
    by simp
  have "i + 2 + 1 < length t" "isMedial [t ! (i + 2 + 1)]"
    unfolding e using assms by simp_all
  from composeLoop_initial_medial [OF this(1) ini this(2)]
  obtain k fin where kf: "fin = [] \<or> (\<exists>f \<in> set FINALS. f \<noteq> 0 \<and> fin = [f])"
    "\<forall>acc'. composeLoop t (i + 2) acc'
        = composeLoop t (i + 2 + k) (acc' @ composeHangulSyllable [t ! (i + 2)] [t ! (i + 2 + 1)] fin)"
    by blast
  have "decomposeHangul (composeHangulSyllable [t ! (i + 2)] [t ! (i + 3)] fin)
      = Some \<lparr> initial = [t ! (i + 2)], medial = [t ! (i + 3)], final = fin \<rparr>"
    using roundtrip_jamos [OF _ _ kf(1)] ini assms(5) by (simp add: isInitial_iff isMedial_iff)
  with kf(2) [unfolded e] show "\<exists>k fin. decomposeHangul (composeHangulSyllable [t ! (i + 2)] [t ! (i + 3)] fin)
                        = Some \<lparr> initial = [t ! (i + 2)], medial = [t ! (i + 3)], final = fin \<rparr>
                    \<and> (\<forall>acc'. composeLoop t (i + 2) acc'
                          = composeLoop t (i + 2 + k)
                              (acc' @ composeHangulSyllable [t ! (i + 2)] [t ! (i + 3)] fin))"
    by blast
next
  assume "\<not> isInitial [t ! (i + 2)]"
  moreover have "i + 2 < length t"
    using assms(1) by simp
  moreover have "i + 2 + 1 = i + 3"
    by simp
  ultimately show "\<forall>acc'. composeLoop t (i + 2) acc' = composeLoop t (i + 3) (acc' @ [t ! (i + 2)])"
    using composeLoop_loose [of "i + 2" t] final_not_syllable [OF assms(4)]
    by metis
qed

theorem lookahead_candidate_final_witness:
  "composeHangul [0x3131, 0x314F, 0x3134, 0x314F] = Some [0xAC00, 0xB098]"
  using lookahead_candidate_final [of 0 "[0x3131, 0x314F, 0x3134, 0x314F]" "[]"]
  by (simp add: compose_eval)

text \<open>
  The claim C5 as it is stated, for every valid final candidate, fails for a cluster: in
  U+3131 U+314F U+3133 U+314F the candidate U+3133 is a valid final and no initial, and it
  stays a loose jamo in the output.
\<close>

theorem lookahead_cluster_counterexample:
  "isInitial [0x3131] \<and> isMedial [0x314F] \<and> isFinal [0x3133] \<and> isMedial [0x314F]
   \<and> \<not> isInitial [0x3133] \<and> \<not> isHangulSyllable [0x3133]
   \<and> composeHangul [0x3131, 0x314F, 0x3133, 0x314F] = Some [0xAC00, 0x3133, 0x314F]"
  by (simp add: compose_eval)

section \<open>Text without Japanese script\<close>

lemma foldl_applyKey_none:
  "\<forall>k \<in> set ks. \<not> includesStr t k \<Longrightarrow> foldl applyKey t ks = t"
  by (induction ks) (simp_all add: applyKey_def)

lemma insertSorted_set: "set (insertSorted cmp a ys) = insert a (set ys)"
  by (induction ys) auto

lemma stableSort_set: "set (stableSort cmp xs) = set xs"
  by (induction xs) (simp_all add: stableSort_def insertSorted_set)

lemma WORD_MAP_KEYS_set: "set WORD_MAP_KEYS = fst ` set WORD_MAP"
  by (simp add: WORD_MAP_KEYS_def stableSort_set)

lemma WORD_MAP_keys_not_ascii_all: "list_all (\<lambda>(k, v). list_ex (\<lambda>d. 128 \<le> d) k) WORD_MAP"
  by code_simp

lemma WORD_MAP_keys_not_ascii: "\<forall>(k, v) \<in> set WORD_MAP. \<exists>d \<in> set k. 128 \<le> d"
  using WORD_MAP_keys_not_ascii_all by (simp add: list_all_iff list_ex_iff case_prod_unfold)

lemma KATAKANA_COMPOUNDS_not_ascii_all: "list_all (\<lambda>(k, v). list_ex (\<lambda>d. 128 \<le> d) k) KATAKANA_COMPOUNDS"
  by code_simp

lemma KATAKANA_COMPOUNDS_not_ascii: "\<forall>(k, v) \<in> set KATAKANA_COMPOUNDS. \<exists>d \<in> set k. 128 \<le> d"
  using KATAKANA_COMPOUNDS_not_ascii_all by (simp add: list_all_iff list_ex_iff case_prod_unfold)

lemma KATAKANA_SINGLE_not_ascii_all: "list_all (\<lambda>(k, v). list_ex (\<lambda>d. 128 \<le> d) k) KATAKANA_SINGLE"
  by code_simp

lemma KATAKANA_SINGLE_not_ascii: "\<forall>(k, v) \<in> set KATAKANA_SINGLE. \<exists>d \<in> set k. 128 \<le> d"
  using KATAKANA_SINGLE_not_ascii_all by (simp add: list_all_iff list_ex_iff case_prod_unfold)

lemma HIRAGANA_SINGLE_not_ascii_all: "list_all (\<lambda>(k, v). list_ex (\<lambda>d. 128 \<le> d) k) HIRAGANA_SINGLE"
  by code_simp

lemma HIRAGANA_SINGLE_not_ascii: "\<forall>(k, v) \<in> set HIRAGANA_SINGLE. \<exists>d \<in> set k. 128 \<le> d"
  using HIRAGANA_SINGLE_not_ascii_all by (simp add: list_all_iff list_ex_iff case_prod_unfold)

lemma KANJI_MAP_not_ascii_all: "list_all (\<lambda>(k, v). list_ex (\<lambda>d. 128 \<le> d) k) KANJI_MAP"
  by code_simp

lemma KANJI_MAP_not_ascii: "\<forall>(k, v) \<in> set KANJI_MAP. \<exists>d \<in> set k. 128 \<le> d"
  using KANJI_MAP_not_ascii_all by (simp add: list_all_iff list_ex_iff case_prod_unfold)

lemma lookup_ascii:
  assumes "\<forall>(k, v) \<in> set tab. \<exists>d \<in> set k. (128::int) \<le> d" "c < 128"
  shows "lookup tab [c] = None"
proof -
  have "[c] \<notin> fst ` set tab"
    using assms by fastforce
  then show ?thesis
    by (simp add: lookup_def map_of_eq_None_iff)
qed

lemma substring_set: "set (substring s i j) \<subseteq> set s"
  unfolding substring_def by (meson set_take_subset set_drop_subset subset_trans)

lemma matchCompound_ascii:
  assumes "\<forall>(k, v) \<in> set tab. \<exists>d \<in> set k. (128::int) \<le> d" "\<forall>c \<in> set x. c < 128"
  shows "matchCompound x i tab = None"
  using assms(1)
proof (induction tab)
  case Nil
  then show ?case by simp
next
  case (Cons e tab)
  obtain p h where e: "e = (p, h)" by (cases e)
  from Cons.prems e obtain d where d: "d \<in> set p" "128 \<le> d" by auto
  have "substring x i (i + length p) \<noteq> p"
  proof
    assume "substring x i (i + length p) = p"
    then have "set p \<subseteq> set x" using substring_set [of x i "i + length p"] by simp
    with d assms(2) show False by fastforce
  qed
  with Cons e show ?case by simp
qed

lemma phoneticLoop_ascii:
  assumes "\<forall>c \<in> set x. 0 \<le> c \<and> c < 128"
  shows "phoneticLoop x i acc = Some (acc @ drop i x)"
proof (induction "length x - i" arbitrary: i acc rule: less_induct)
  case less
  show ?case
  proof (cases "i < length x")
    case False
    then show ?thesis by (subst phoneticLoop.simps) simp
  next
    case True
    then have c: "x ! i < 128" using assms by simp
    have mc: "matchCompound x i KATAKANA_COMPOUNDS = None"
      using matchCompound_ascii [OF KATAKANA_COMPOUNDS_not_ascii] assms by simp
    have lk: "lookup KATAKANA_SINGLE [x ! i] = None" "lookup HIRAGANA_SINGLE [x ! i] = None"
      "lookup KANJI_MAP [x ! i] = None"
      using c lookup_ascii KATAKANA_SINGLE_not_ascii HIRAGANA_SINGLE_not_ascii KANJI_MAP_not_ascii
      by blast+
    have pl: "[x ! i] \<noteq> PROLONGED"
      using c by (auto simp: PROLONGED_def)
    have "phoneticLoop x i acc = phoneticLoop x (i + 1) (acc @ [x ! i])"
      by (subst phoneticLoop.simps) (simp add: True mc lk pl truthy_def)
    also have "\<dots> = Some ((acc @ [x ! i]) @ drop (i + 1) x)"
      using less [of "i + 1" "acc @ [x ! i]"] True by simp
    finally show ?thesis
      using True by (simp add: Cons_nth_drop_Suc)
  qed
qed

lemma composeLoop_ascii:
  assumes "\<forall>c \<in> set x. 0 \<le> c \<and> c < 128"
  shows "composeLoop x i acc = Some (acc @ drop i x)"
proof (induction "length x - i" arbitrary: i acc rule: less_induct)
  case less
  show ?case
  proof (cases "i < length x")
    case False
    then show ?thesis by (simp add: composeLoop_end)
  next
    case True
    then have c: "x ! i < 128" using assms by simp
    have ns: "\<not> isHangulSyllable [x ! i]"
      using c by (simp add: isHangulSyllable_def charCodeAt0_def HANGUL_BASE_def)
    have ni: "\<not> isInitial [x ! i]"
      using c by (auto simp: isInitial_iff INITIALS_def)
    have "composeLoop x i acc = composeLoop x (i + 1) (acc @ [x ! i])"
      using composeLoop_loose [OF True ns ni] .
    also have "\<dots> = Some ((acc @ [x ! i]) @ drop (i + 1) x)"
      using less [of "i + 1" "acc @ [x ! i]"] True by simp
    finally show ?thesis
      using True by (simp add: Cons_nth_drop_Suc)
  qed
qed

text \<open>
  Claim C8.  For every input made of ASCII characters only (digits and Latin punctuation
  among them, as in \<open>10:00-12:00\<close>), \<open>transliterate(input, "ko")\<close> returns the input
  unchanged: no dictionary key, compound pattern, kana or kanji key has only ASCII
  characters, and the composition loop passes every such character through.
\<close>

theorem ascii_unchanged:
  assumes "\<forall>c \<in> set x. 0 \<le> c \<and> c < 128"
  shows "transliterate x Ko = Some x"
proof -
  have "\<not> includesStr x k" if kk: "k \<in> set WORD_MAP_KEYS" for k
  proof
    assume "includesStr x k"
    then have "set k \<subseteq> set x" by (rule includesStr_set)
    moreover have "\<exists>d \<in> set k. 128 \<le> d"
      using kk WORD_MAP_keys_not_ascii by (fastforce simp: WORD_MAP_KEYS_set)
    ultimately show False using assms by fastforce
  qed
  then have "applyDictionary x = x"
    by (simp add: applyDictionary_def foldl_applyKey_none)
  then show ?thesis
    using phoneticLoop_ascii [OF assms, of 0 "[]"] composeLoop_ascii [OF assms, of 0 "[]"]
    by (simp add: transliterate_def composeHangul_def)
qed

theorem ascii_unchanged_witness:
  "transliterate [0x31, 0x30, 0x3A, 0x30, 0x30, 0x2D, 0x31, 0x32, 0x3A, 0x30, 0x30] Ko
     = Some [0x31, 0x30, 0x3A, 0x30, 0x30, 0x2D, 0x31, 0x32, 0x3A, 0x30, 0x30]"
  using ascii_unchanged [of "[0x31, 0x30, 0x3A, 0x30, 0x30, 0x2D, 0x31, 0x32, 0x3A, 0x30, 0x30]"]
  by simp

section \<open>The order of the dictionary keys\<close>

lemma insertSorted_sorted:
  "sorted_wrt (\<lambda>a b. length b \<le> length a) ys \<Longrightarrow>
   sorted_wrt (\<lambda>a b. length b \<le> length a) (insertSorted byLength a ys)"
  by (induction ys) (auto simp: byLength_def insertSorted_set)

lemma stableSort_sorted: "sorted_wrt (\<lambda>a b. length b \<le> length a) (stableSort byLength xs)"
  by (induction xs) (simp_all add: stableSort_def insertSorted_sorted)

lemma WORD_MAP_KEYS_sorted: "sorted_wrt (\<lambda>a b. length b \<le> length a) WORD_MAP_KEYS"
  by (simp add: WORD_MAP_KEYS_def stableSort_sorted)

lemma startsWith_length: "startsWith s p \<Longrightarrow> length p \<le> length s"
  by (induction s p rule: startsWith.induct) auto

lemma startsWith_same_length: "startsWith s p \<Longrightarrow> length s \<le> length p \<Longrightarrow> p = s"
  by (induction s p rule: startsWith.induct) auto

lemma includesStr_length: "includesStr s p \<Longrightarrow> length p \<le> length s"
  by (induction s p rule: includesStr.induct) (auto dest: startsWith_length)

lemma includesStr_same_length: "includesStr s p \<Longrightarrow> length s \<le> length p \<Longrightarrow> p = s"
  by (induction s p rule: includesStr.induct)
    (auto dest: startsWith_same_length includesStr_length)

lemma startsWith_refl: "startsWith s s"
  by (induction s) auto

text \<open>
  The values of the dictionary are made of ASCII characters and Hangul syllables; every
  key has a character that is neither.
\<close>

lemma WORD_MAP_values_all:
  "list_all (\<lambda>(k, v). list_all (\<lambda>d. d < 128 \<or> (0xAC00 \<le> d \<and> d \<le> 0xD7A3)) v) WORD_MAP"
  by code_simp

lemma WORD_MAP_keys_all:
  "list_all (\<lambda>(k, v). list_ex (\<lambda>d. \<not> (d < 128 \<or> (0xAC00 \<le> d \<and> d \<le> 0xD7A3))) k) WORD_MAP"
  by code_simp

lemma key_lookup:
  assumes "k \<in> set WORD_MAP_KEYS"
  shows "(k, the (lookup WORD_MAP k)) \<in> set WORD_MAP" and "k \<noteq> []"
proof -
  have "k \<in> fst ` set WORD_MAP"
    using assms by (simp add: WORD_MAP_KEYS_set)
  then obtain v where "map_of WORD_MAP k = Some v"
    by (meson map_of_eq_None_iff not_Some_eq)
  then show "(k, the (lookup WORD_MAP k)) \<in> set WORD_MAP"
    by (simp add: lookup_def map_of_SomeD)
  then show "k \<noteq> []"
    using WORD_MAP_keys_all by (fastforce simp: list_all_iff list_ex_iff)
qed

lemma sorted_prefix_longer:
  assumes "WORD_MAP_KEYS = pre @ k # post"
  shows "\<forall>k' \<in> set pre. length k \<le> length k'"
proof -
  have "sorted_wrt (\<lambda>a b. length b \<le> length a) (pre @ k # post)"
    using WORD_MAP_KEYS_sorted unfolding assms .
  then show ?thesis
    by (simp add: sorted_wrt_append)
qed

lemma keys_split_set:
  assumes "WORD_MAP_KEYS = pre @ k # post"
  shows "set WORD_MAP_KEYS = set pre \<union> insert k (set post)"
  unfolding assms by simp

section \<open>Replacing one key in a text of three parts\<close>

lemma startsWith_iff: "startsWith s p \<longleftrightarrow> (\<exists>z. s = p @ z)"
  by (induction s p rule: startsWith.induct) auto

lemma startsWith_append: "startsWith s k \<Longrightarrow> startsWith (s @ t) k"
  by (auto simp: startsWith_iff)

lemma startsWith_append_short:
  "startsWith (s @ t) k \<Longrightarrow> length k \<le> length s \<Longrightarrow> startsWith s k"
  by (auto simp: startsWith_iff append_eq_append_conv2)

lemma includesStr_iff: "includesStr t k \<longleftrightarrow> (\<exists>p \<le> length t. startsWith (drop p t) k)"
proof (induction t)
  case Nil
  then show ?case by (cases k) auto
next
  case (Cons c t)
  show ?case
  proof
    assume "includesStr (c # t) k"
    then consider "startsWith (c # t) k" | "includesStr t k" by auto
    then show "\<exists>p \<le> length (c # t). startsWith (drop p (c # t)) k"
    proof cases
      case 1
      then have "startsWith (drop 0 (c # t)) k" by simp
      then show ?thesis by blast
    next
      case 2
      then obtain p where "p \<le> length t" "startsWith (drop p t) k" using Cons.IH by blast
      then have "Suc p \<le> length (c # t)" "startsWith (drop (Suc p) (c # t)) k" by simp_all
      then show ?thesis by blast
    qed
  next
    assume "\<exists>p \<le> length (c # t). startsWith (drop p (c # t)) k"
    then obtain p where p: "p \<le> length (c # t)" "startsWith (drop p (c # t)) k" by blast
    show "includesStr (c # t) k"
    proof (cases p)
      case 0
      with p show ?thesis by simp
    next
      case (Suc q)
      with p have "q \<le> length t" "startsWith (drop q t) k" by simp_all
      with Cons.IH show ?thesis by auto
    qed
  qed
qed

lemma replaceAll_no_occurrence:
  "k \<noteq> [] \<Longrightarrow> \<not> includesStr t k \<Longrightarrow> replaceAll t k v = t"
  by (induction t k v rule: replaceAll.induct) auto

lemma applyKey_replaceAll:
  "k \<noteq> [] \<Longrightarrow> applyKey t k = replaceAll t k (the (lookup WORD_MAP k))"
  by (simp add: applyKey_def replaceAll_no_occurrence)

text \<open>
  A replacement on \<open>l @ t\<close> is the replacement on \<open>l\<close> followed by the one on \<open>t\<close>, when no
  occurrence of the key that starts in \<open>l\<close> reaches into \<open>t\<close>.
\<close>

lemma replaceAll_append:
  assumes "k \<noteq> []"
    and "\<forall>p < length l. startsWith (drop p (l @ t)) k \<longrightarrow> p + length k \<le> length l"
  shows "replaceAll (l @ t) k v = replaceAll l k v @ replaceAll t k v"
  using assms
proof (induction l k v rule: replaceAll.induct)
  case (1 s v)
  then show ?case by simp
next
  case (2 k ks v)
  then show ?case by simp
next
  case (3 c s k ks v)
  let ?k = "k # ks"
  show ?case
  proof (cases "startsWith (c # s) ?k")
    case True
    then have len: "length ks \<le> length s"
      using startsWith_length [of "c # s" ?k] by simp
    have st: "startsWith ((c # s) @ t) ?k"
      using True by (rule startsWith_append)
    have hyp: "\<forall>p < length (drop (length ks) s).
        startsWith (drop p (drop (length ks) s @ t)) ?k \<longrightarrow> p + length ?k \<le> length (drop (length ks) s)"
    proof (intro allI impI)
      fix p
      assume p: "p < length (drop (length ks) s)" "startsWith (drop p (drop (length ks) s @ t)) ?k"
      have "drop (p + length ks + 1) ((c # s) @ t) = drop p (drop (length ks) s @ t)"
        using len by (simp add: add.commute)
      then have occ: "startsWith (drop (p + length ks + 1) ((c # s) @ t)) ?k"
        using p(2) by simp
      have lt: "p + length ks + 1 < length (c # s)"
        using p(1) by simp
      have "p + length ks + 1 + length ?k \<le> length (c # s)"
        using "3.prems"(2) [rule_format, OF lt occ] .
      then show "p + length ?k \<le> length (drop (length ks) s)"
        by simp
    qed
    have a: "replaceAll ((c # s) @ t) ?k v = v @ replaceAll (drop (length ks) (s @ t)) ?k v"
      using st by simp
    have b: "drop (length ks) (s @ t) = drop (length ks) s @ t"
      using len by simp
    have c: "replaceAll (c # s) ?k v = v @ replaceAll (drop (length ks) s) ?k v"
      using True by simp
    have "replaceAll (drop (length ks) s @ t) ?k v
        = replaceAll (drop (length ks) s) ?k v @ replaceAll t ?k v"
      using "3.IH"(1) [OF True _ hyp] by simp
    then show ?thesis
      unfolding a b c by simp
  next
    case False
    have nst: "\<not> startsWith ((c # s) @ t) ?k"
    proof
      assume a: "startsWith ((c # s) @ t) ?k"
      then have occ: "startsWith (drop 0 ((c # s) @ t)) ?k" by simp
      have "0 + length ?k \<le> length (c # s)"
        using "3.prems"(2) [rule_format, of 0, OF _ occ] by simp
      with a False show False
        using startsWith_append_short [of "c # s" t ?k] by simp
    qed
    have hyp: "\<forall>p < length s. startsWith (drop p (s @ t)) ?k \<longrightarrow> p + length ?k \<le> length s"
    proof (intro allI impI)
      fix p
      assume p: "p < length s" "startsWith (drop p (s @ t)) ?k"
      then have lt: "Suc p < length (c # s)" and occ: "startsWith (drop (Suc p) ((c # s) @ t)) ?k"
        by simp_all
      have "Suc p + length ?k \<le> length (c # s)"
        using "3.prems"(2) [rule_format, OF lt occ] .
      then show "p + length ?k \<le> length s" by simp
    qed
    have a: "replaceAll ((c # s) @ t) ?k v = c # replaceAll (s @ t) ?k v"
      using nst by auto
    have c: "replaceAll (c # s) ?k v = c # replaceAll s ?k v"
      using False by auto
    have "replaceAll (s @ t) ?k v = replaceAll s ?k v @ replaceAll t ?k v"
      using "3.IH"(2) [OF False _ hyp] by simp
    then show ?thesis
      unfolding a c by simp
  qed
qed

lemma replaceAll_middle:
  assumes "k \<noteq> []"
    and "\<forall>p < length l + length m. startsWith (drop p (l @ m @ r)) k \<longrightarrow> p + length k \<le> length l"
  shows "replaceAll (l @ m @ r) k v = replaceAll l k v @ m @ replaceAll r k v"
proof -
  have no: "\<not> startsWith (drop p (m @ r)) k" if "p < length m" for p
  proof
    assume "startsWith (drop p (m @ r)) k"
    then have "startsWith (drop (length l + p) (l @ m @ r)) k" by simp
    with assms(2) that have "length l + p + length k \<le> length l"
      by (meson add_less_cancel_left)
    with assms(1) show False by simp
  qed
  have "\<not> includesStr m k"
  proof
    assume "includesStr m k"
    then obtain p where p: "p \<le> length m" "startsWith (drop p m) k"
      by (auto simp: includesStr_iff)
    with assms(1) have "p < length m"
      by (cases "p = length m") (auto simp: startsWith_iff)
    moreover from p(2) have "startsWith (drop p m @ r) k" by (rule startsWith_append)
    ultimately show False using no [of p] by simp
  qed
  then have m: "replaceAll m k v = m"
    using assms(1) by (simp add: replaceAll_no_occurrence)
  have "replaceAll (l @ (m @ r)) k v = replaceAll l k v @ replaceAll (m @ r) k v"
    using assms by (intro replaceAll_append) auto
  moreover have "replaceAll (m @ r) k v = replaceAll m k v @ replaceAll r k v"
    using assms(1) no by (intro replaceAll_append) auto
  ultimately show ?thesis
    using m by simp
qed

text \<open>
  Where the replacement is not empty and made of characters that no key contains, a run of
  key characters at the end or at the start of the result was there before.
\<close>

lemma replaceAll_only_key_chars:
  "k \<noteq> [] \<Longrightarrow> v \<noteq> [] \<Longrightarrow> \<forall>c \<in> set v. V c \<Longrightarrow>
   \<forall>c \<in> set (replaceAll t k v). \<not> V c \<Longrightarrow> replaceAll t k v = t"
proof (induction t k v rule: replaceAll.induct)
  case (3 c s k ks v)
  then show ?case
    by (cases "startsWith (c # s) (k # ks)") (auto simp: neq_Nil_conv)
qed auto

lemma replaceAll_suffix:
  "k \<noteq> [] \<Longrightarrow> v \<noteq> [] \<Longrightarrow> \<forall>c \<in> set v. V c \<Longrightarrow> \<forall>c \<in> set s. \<not> V c \<Longrightarrow>
   replaceAll l k v = x @ s \<Longrightarrow> \<exists>y. l = y @ s"
proof (induction l k v arbitrary: x rule: replaceAll.induct)
  case (1 s' v)
  then show ?case by simp
next
  case (2 k ks v)
  then show ?case by simp
next
  case (3 c t k ks v)
  let ?k = "k # ks"
  show ?case
  proof (cases "startsWith (c # t) ?k")
    case True
    let ?R = "replaceAll (drop (length ks) t) ?k v"
    have eq: "x @ s = v @ ?R"
      using "3.prems"(5) True by simp
    then have "\<exists>u. (x = v @ u \<and> ?R = u @ s) \<or> (x @ u = v \<and> s = u @ ?R)"
      unfolding append_eq_append_conv2 by (elim exE disjE conjE) (metis, metis)
    then obtain u where u: "(x = v @ u \<and> ?R = u @ s) \<or> (x @ u = v \<and> s = u @ ?R)"
      by blast
    have "\<exists>u'. ?R = u' @ s"
    proof (cases "x = v @ u \<and> ?R = u @ s")
      case True
      then show ?thesis by blast
    next
      case False
      with u have v: "x @ u = v" and s: "s = u @ ?R" by auto
      have "u = []"
      proof (rule ccontr)
        assume "u \<noteq> []"
        then obtain d where "d \<in> set u" by (cases u) auto
        then have "d \<in> set v" "d \<in> set s" using v s by auto
        with "3.prems"(3,4) show False by blast
      qed
      with s have "?R = [] @ s" by simp
      then show ?thesis by blast
    qed
    then obtain u' where "?R = u' @ s" by blast
    from "3.IH"(1) [OF True "3.prems"(1-4) this]
    obtain y where "drop (length ks) t = y @ s" by blast
    then have "c # t = (c # take (length ks) t @ y) @ s"
      by (metis append.assoc append_Cons append_take_drop_id)
    then show ?thesis by blast
  next
    case False
    let ?R = "replaceAll t ?k v"
    have eq: "x @ s = c # ?R"
      using "3.prems"(5) False by auto
    show ?thesis
    proof (cases x)
      case Nil
      with eq have s: "s = c # ?R" by simp
      then have "\<forall>d \<in> set ?R. \<not> V d" using "3.prems"(4) by simp
      then have "?R = t"
        using "3.prems"(1-3) by (intro replaceAll_only_key_chars) auto
      with s have "c # t = [] @ s" by simp
      then show ?thesis by blast
    next
      case (Cons a x')
      with eq have "?R = x' @ s" "a = c" by simp_all
      from "3.IH"(2) [OF False "3.prems"(1-4) this(1)]
      obtain y where "t = y @ s" by blast
      then have "c # t = (c # y) @ s" by simp
      then show ?thesis by blast
    qed
  qed
qed

lemma replaceAll_prefix:
  "k \<noteq> [] \<Longrightarrow> v \<noteq> [] \<Longrightarrow> \<forall>c \<in> set v. V c \<Longrightarrow> \<forall>c \<in> set b. \<not> V c \<Longrightarrow>
   replaceAll r k v = b @ x \<Longrightarrow> \<exists>z. r = b @ z"
proof (induction r k v arbitrary: b x rule: replaceAll.induct)
  case (1 s' v)
  then show ?case by simp
next
  case (2 k ks v)
  then show ?case by simp
next
  case (3 c t k ks v)
  let ?k = "k # ks"
  show ?case
  proof (cases b)
    case Nil
    then show ?thesis by simp
  next
    case (Cons d b')
    show ?thesis
    proof (cases "startsWith (c # t) ?k")
      case True
      then have "d # b' @ x = v @ replaceAll (drop (length ks) t) ?k v"
        using "3.prems"(5) Cons by simp
      with "3.prems"(2) have "d = hd v" "hd v \<in> set v"
        by (cases v; simp)+
      with "3.prems"(3,4) Cons show ?thesis by auto
    next
      case False
      then have "d # b' @ x = c # replaceAll t ?k v"
        using "3.prems"(5) Cons by auto
      then have dc: "d = c" and R: "replaceAll t ?k v = b' @ x" by simp_all
      have "\<forall>e \<in> set b'. \<not> V e" using "3.prems"(4) Cons by simp
      from "3.IH"(2) [OF False "3.prems"(1-3) this R]
      obtain z where "t = b' @ z" by blast
      with dc Cons have "c # t = b @ z" by simp
      then show ?thesis by blast
    qed
  qed
qed

text \<open>
  An occurrence of a key that overlaps the middle part \<open>m\<close> of \<open>l' @ m @ r'\<close> is an occurrence
  that overlaps \<open>m\<close> in \<open>l @ m @ r\<close>, when the runs of key characters at the end of \<open>l'\<close> and at
  the start of \<open>r'\<close> are also at the end of \<open>l\<close> and at the start of \<open>r\<close>.
\<close>

lemma overlap_transfer:
  assumes S: "\<forall>s x. (\<forall>c \<in> set s. \<not> V c) \<and> l' = x @ s \<longrightarrow> (\<exists>y. l = y @ s)"
    and P: "\<forall>b x. (\<forall>c \<in> set b. \<not> V c) \<and> r' = b @ x \<longrightarrow> (\<exists>z. r = b @ z)"
    and J: "\<forall>c \<in> set k. \<not> V c" and ne: "k \<noteq> []"
    and occ: "startsWith (drop p (l' @ m @ r')) k"
    and lt: "p < length l' + length m"
    and ov: "length l' < p + length k"
  shows "\<exists>p0. startsWith (drop p0 (l @ m @ r)) k \<and> p0 < length l + length m
           \<and> length l < p0 + length k \<and> (p < length l' \<longrightarrow> p0 < length l)"
proof -
  define s where "s = drop p l'"
  define m' where "m' = drop (p - length l') m"
  have d: "drop p (l' @ m @ r') = s @ m' @ r'"
    using lt by (simp add: s_def m'_def)
  obtain z where z: "s @ m' @ r' = k @ z"
    using occ unfolding d by (auto simp: startsWith_iff)
  have sl: "length s < length k"
    using ov ne by (cases "p \<le> length l'") (simp_all add: s_def)
  have "take (length s) (s @ m' @ r') = take (length s) (k @ z)"
    using z by simp
  then have s_take: "s = take (length s) k"
    using sl by simp
  define k1 where "k1 = drop (length s) k"
  have k: "k = s @ k1"
    using s_take by (metis append_take_drop_id k1_def)
  have k1: "k1 \<noteq> []"
    using sl by (simp add: k1_def)
  have rest: "m' @ r' = k1 @ z"
    using z k by simp
  have "\<forall>c \<in> set s. \<not> V c"
    using J k by (metis Un_iff set_append)
  moreover have "l' = take p l' @ s"
    by (simp add: s_def)
  ultimately obtain y where y: "l = y @ s"
    using S by blast
  define p0 where "p0 = length y + (p - length l')"
  have d0: "drop p0 (l @ m @ r) = s @ m' @ r"
  proof (cases "p \<le> length l'")
    case True
    then show ?thesis by (simp add: p0_def y m'_def)
  next
    case False
    then have "s = []" by (simp add: s_def)
    with False lt show ?thesis by (simp add: p0_def y m'_def)
  qed
  have "\<exists>w. m' @ r = k1 @ w"
  proof (cases "length k1 \<le> length m'")
    case True
    have "take (length k1) (m' @ r') = take (length k1) (k1 @ z)"
      using rest by simp
    then have "take (length k1) m' = k1"
      using True by simp
    then have "m' @ r = k1 @ (drop (length k1) m' @ r)"
      by (metis append.assoc append_take_drop_id)
    then show ?thesis by blast
  next
    case False
    have "take (length m') (m' @ r') = take (length m') (k1 @ z)"
      using rest by simp
    then have m'_take: "m' = take (length m') k1"
      using False by simp
    define b where "b = drop (length m') k1"
    have kb: "k1 = m' @ b"
      using m'_take by (metis append_take_drop_id b_def)
    then have r': "r' = b @ z"
      using rest by simp
    have "\<forall>c \<in> set b. \<not> V c"
      using J k kb by (metis Un_iff set_append)
    then obtain z' where "r = b @ z'"
      using P r' by blast
    then have "m' @ r = k1 @ z'"
      using kb by simp
    then show ?thesis by blast
  qed
  then obtain w where "s @ m' @ r = k @ w"
    using k by auto
  then have "startsWith (drop p0 (l @ m @ r)) k"
    unfolding d0 by (auto simp: startsWith_iff)
  moreover have "p0 < length l + length m \<and> (p < length l' \<longrightarrow> p0 < length l)"
  proof (cases "p < length l'")
    case True
    then have "s \<noteq> []" by (simp add: s_def)
    with True show ?thesis by (simp add: p0_def y)
  next
    case False
    then have "s = []" by (simp add: s_def)
    with False lt show ?thesis by (simp add: p0_def y)
  qed
  moreover have "length l < p0 + length k"
    using k k1 by (simp add: p0_def y)
  ultimately show ?thesis by blast
qed

lemma no_overlap_preserved:
  assumes S: "\<forall>s x. (\<forall>c \<in> set s. \<not> V c) \<and> l' = x @ s \<longrightarrow> (\<exists>y. l = y @ s)"
    and P: "\<forall>b x. (\<forall>c \<in> set b. \<not> V c) \<and> r' = b @ x \<longrightarrow> (\<exists>z. r = b @ z)"
    and J: "\<forall>c \<in> set k. \<not> V c" and ne: "k \<noteq> []"
    and H: "\<forall>p < length l + length m. startsWith (drop p (l @ m @ r)) k \<longrightarrow> p + length k \<le> length l"
  shows "\<forall>p < length l' + length m. startsWith (drop p (l' @ m @ r')) k \<longrightarrow> p + length k \<le> length l'"
proof (intro allI impI, rule ccontr)
  fix p
  assume p: "p < length l' + length m" "startsWith (drop p (l' @ m @ r')) k"
    and "\<not> p + length k \<le> length l'"
  then have "length l' < p + length k" by simp
  from overlap_transfer [of V l' l r' r k p m, OF S P J ne p(2) p(1) this]
  obtain p0 where "startsWith (drop p0 (l @ m @ r)) k" "p0 < length l + length m"
    "length l < p0 + length k" by blast
  with H show False by fastforce
qed

lemma no_left_overlap_preserved:
  assumes S: "\<forall>s x. (\<forall>c \<in> set s. \<not> V c) \<and> l' = x @ s \<longrightarrow> (\<exists>y. l = y @ s)"
    and P: "\<forall>b x. (\<forall>c \<in> set b. \<not> V c) \<and> r' = b @ x \<longrightarrow> (\<exists>z. r = b @ z)"
    and J: "\<forall>c \<in> set k. \<not> V c" and ne: "k \<noteq> []"
    and H: "\<forall>p < length l. startsWith (drop p (l @ m @ r)) k \<longrightarrow> p + length k \<le> length l"
  shows "\<forall>p < length l'. startsWith (drop p (l' @ m @ r')) k \<longrightarrow> p + length k \<le> length l'"
proof (intro allI impI, rule ccontr)
  fix p
  assume p: "p < length l'" "startsWith (drop p (l' @ m @ r')) k"
    and "\<not> p + length k \<le> length l'"
  then have ov: "length l' < p + length k" by simp
  have lt: "p < length l' + length m" using p(1) by simp
  from overlap_transfer [of V l' l r' r k p m, OF S P J ne p(2) lt ov] p(1)
  obtain p0 where "startsWith (drop p0 (l @ m @ r)) k" "p0 < length l"
    "length l < p0 + length k" by blast
  with H show False by fastforce
qed

section \<open>The keys before and after a key\<close>

lemma WORD_MAP_key_chars:
  "list_all (\<lambda>(k, v). k \<noteq> [] \<and> list_all (\<lambda>d. \<not> (d < 128 \<or> (0xAC00 \<le> d \<and> d \<le> 0xD7A3))) k) WORD_MAP"
  by code_simp

lemma WORD_MAP_empty_values: "list_all (\<lambda>(k, v). v \<noteq> [] \<or> length k = 2) WORD_MAP"
  by code_simp

lemma WORD_MAP_keys_of_length_1:
  "list_all (\<lambda>(k, v). length k \<noteq> 1 \<or> hd k \<in> set [0x306E, 0xFF5E, 0x5206, 0x79D2, 0x67CF]) WORD_MAP"
  by code_simp

lemma WORD_MAP_keys_of_length_2:
  "list_all (\<lambda>(k, v). length k \<noteq> 2
      \<or> list_all (\<lambda>c. c \<notin> set [0x306E, 0xFF5E, 0x5206, 0x79D2, 0x67CF]) k) WORD_MAP"
  by code_simp

lemma key_chars:
  assumes "k \<in> set WORD_MAP_KEYS"
  shows "\<forall>c \<in> set k. \<not> (c < 128 \<or> (0xAC00 \<le> c \<and> c \<le> 0xD7A3))"
proof -
  obtain v where "(k, v) \<in> set WORD_MAP"
    using assms by (auto simp: WORD_MAP_KEYS_set)
  then show ?thesis
    using bspec [OF WORD_MAP_key_chars [unfolded list_all_iff]] by (fastforce simp: list_all_iff)
qed

lemma value_chars:
  assumes "k \<in> set WORD_MAP_KEYS"
  shows "\<forall>c \<in> set (the (lookup WORD_MAP k)). c < 128 \<or> (0xAC00 \<le> c \<and> c \<le> 0xD7A3)"
  using key_lookup(1) [OF assms] WORD_MAP_values_all by (fastforce simp: list_all_iff)

lemma long_key_value:
  assumes "k \<in> set WORD_MAP_KEYS" "2 < length k"
  shows "the (lookup WORD_MAP k) \<noteq> []"
  using key_lookup(1) [OF assms(1)] WORD_MAP_empty_values assms(2)
  by (fastforce simp: list_all_iff)

lemma key_with_subkey_long:
  assumes "K1 \<in> set WORD_MAP_KEYS" "K2 \<in> set WORD_MAP_KEYS" "includesStr K1 K2" "K2 \<noteq> K1"
  shows "2 < length K1"
proof (rule ccontr)
  assume short: "\<not> 2 < length K1"
  obtain v1 v2 where in1: "(K1, v1) \<in> set WORD_MAP" and in2: "(K2, v2) \<in> set WORD_MAP"
    using assms(1,2) by (auto simp: WORD_MAP_KEYS_set)
  have lt: "length K2 < length K1"
    using includesStr_length [OF assms(3)] includesStr_same_length [OF assms(3)] assms(4)
    by (cases "length K1 \<le> length K2") auto
  have "K2 \<noteq> []"
    using assms(2) by (rule key_lookup(2))
  then have "0 < length K2"
    by simp
  with lt short have len: "length K2 = 1" "length K1 = 2"
    by linarith+
  then obtain c where c: "K2 = [c]"
    by (cases K2) auto
  have "hd K2 \<in> set [0x306E, 0xFF5E, 0x5206, 0x79D2, 0x67CF]"
    using bspec [OF WORD_MAP_keys_of_length_1 [unfolded list_all_iff] in2] len(1)
    by (simp del: set_simps)
  moreover have "c \<in> set K1"
    using includesStr_set [OF assms(3)] c by simp
  moreover have "\<forall>c \<in> set K1. c \<notin> set [0x306E, 0xFF5E, 0x5206, 0x79D2, 0x67CF]"
    using bspec [OF WORD_MAP_keys_of_length_2 [unfolded list_all_iff] in1] len(2)
    by (simp add: list_all_iff del: set_simps)
  ultimately show False
    using c by (simp del: set_simps)
qed

lemma applyKey_middle:
  assumes "k \<in> set WORD_MAP_KEYS"
    and "\<forall>p < length l + length m. startsWith (drop p (l @ m @ r)) k \<longrightarrow> p + length k \<le> length l"
  shows "applyKey (l @ m @ r) k = applyKey l k @ m @ applyKey r k"
  using key_lookup(2) [OF assms(1)] assms(2)
  by (simp add: applyKey_replaceAll replaceAll_middle)

lemma applyKey_key_runs:
  assumes "k \<in> set WORD_MAP_KEYS" "2 < length k"
  shows "\<forall>s x. (\<forall>c \<in> set s. \<not> (c < 128 \<or> (0xAC00 \<le> c \<and> c \<le> 0xD7A3))) \<and> applyKey t k = x @ s
           \<longrightarrow> (\<exists>y. t = y @ s)"
    and "\<forall>b x. (\<forall>c \<in> set b. \<not> (c < 128 \<or> (0xAC00 \<le> c \<and> c \<le> 0xD7A3))) \<and> applyKey t k = b @ x
           \<longrightarrow> (\<exists>z. t = b @ z)"
proof -
  let ?V = "\<lambda>c::int. c < 128 \<or> (0xAC00 \<le> c \<and> c \<le> 0xD7A3)"
  let ?v = "the (lookup WORD_MAP k)"
  have k: "k \<noteq> []" using assms(1) by (rule key_lookup(2))
  have v: "?v \<noteq> []" using assms by (rule long_key_value)
  have vc: "\<forall>c \<in> set ?v. ?V c" using assms(1) by (rule value_chars)
  have eq: "applyKey t k = replaceAll t k ?v" using k by (rule applyKey_replaceAll)
  show "\<forall>s x. (\<forall>c \<in> set s. \<not> ?V c) \<and> applyKey t k = x @ s \<longrightarrow> (\<exists>y. t = y @ s)"
    unfolding eq using replaceAll_suffix [OF k v vc] by blast
  show "\<forall>b x. (\<forall>c \<in> set b. \<not> ?V c) \<and> applyKey t k = b @ x \<longrightarrow> (\<exists>z. t = b @ z)"
    unfolding eq using replaceAll_prefix [OF k v vc] by blast
qed

text \<open>
  The keys tried before \<open>K\<close>: as long as none of them, and no occurrence of \<open>K\<close> that starts
  further left, overlaps the part \<open>m\<close>, they rewrite what is left and right of \<open>m\<close> only.
\<close>

lemma keys_before:
  assumes "set ks \<subseteq> set prot" "set prot \<subseteq> set WORD_MAP_KEYS" "\<forall>k \<in> set prot. 2 < length k"
    and "K \<in> set WORD_MAP_KEYS"
    and "\<forall>k \<in> set prot. \<forall>p < length l + length m.
           startsWith (drop p (l @ m @ r)) k \<longrightarrow> p + length k \<le> length l"
    and "\<forall>p < length l. startsWith (drop p (l @ m @ r)) K \<longrightarrow> p + length K \<le> length l"
  shows "foldl applyKey (l @ m @ r) ks = foldl applyKey l ks @ m @ foldl applyKey r ks
       \<and> (\<forall>p < length (foldl applyKey l ks).
             startsWith (drop p (foldl applyKey l ks @ m @ foldl applyKey r ks)) K
             \<longrightarrow> p + length K \<le> length (foldl applyKey l ks))"
  using assms(1,5,6)
proof (induction ks arbitrary: l r)
  case Nil
  then show ?case by simp
next
  case (Cons k ks)
  have kp: "k \<in> set prot" using Cons.prems(1) by simp
  then have kk: "k \<in> set WORD_MAP_KEYS" and long: "2 < length k"
    using assms(2,3) by auto
  have step: "applyKey (l @ m @ r) k = applyKey l k @ m @ applyKey r k"
    using kk Cons.prems(2) kp by (intro applyKey_middle) auto
  note S = applyKey_key_runs(1) [OF kk long, of l]
  note P = applyKey_key_runs(2) [OF kk long, of r]
  have inv1: "\<forall>k' \<in> set prot. \<forall>p < length (applyKey l k) + length m.
      startsWith (drop p (applyKey l k @ m @ applyKey r k)) k' \<longrightarrow> p + length k' \<le> length (applyKey l k)"
  proof
    fix k'
    assume k': "k' \<in> set prot"
    then have "k' \<in> set WORD_MAP_KEYS" using assms(2) by auto
    then have "\<forall>c \<in> set k'. \<not> (c < 128 \<or> (0xAC00 \<le> c \<and> c \<le> 0xD7A3))" "k' \<noteq> []"
      using key_chars key_lookup(2) by blast+
    then show "\<forall>p < length (applyKey l k) + length m.
      startsWith (drop p (applyKey l k @ m @ applyKey r k)) k' \<longrightarrow> p + length k' \<le> length (applyKey l k)"
      using Cons.prems(2) k' by (intro no_overlap_preserved [OF S P]) auto
  qed
  have "\<forall>c \<in> set K. \<not> (c < 128 \<or> (0xAC00 \<le> c \<and> c \<le> 0xD7A3))" "K \<noteq> []"
    using assms(4) key_chars key_lookup(2) by blast+
  then have inv2: "\<forall>p < length (applyKey l k).
      startsWith (drop p (applyKey l k @ m @ applyKey r k)) K \<longrightarrow> p + length K \<le> length (applyKey l k)"
    using Cons.prems(3) by (intro no_left_overlap_preserved [OF S P]) auto
  have "set ks \<subseteq> set prot" using Cons.prems(1) by simp
  from Cons.IH [OF this inv1 inv2] show ?case
    by (simp add: step)
qed

lemma replaceAll_head: "k \<noteq> [] \<Longrightarrow> replaceAll (k @ r) k v = v @ replaceAll r k v"
  by (cases k) (simp_all add: startsWith_append startsWith_refl)

lemma applyKey_occurrence:
  assumes "K \<in> set WORD_MAP_KEYS"
    and "\<forall>p < length l. startsWith (drop p (l @ K @ r)) K \<longrightarrow> p + length K \<le> length l"
  shows "applyKey (l @ K @ r) K = applyKey l K @ the (lookup WORD_MAP K) @ applyKey r K"
proof -
  have k: "K \<noteq> []" using assms(1) by (rule key_lookup(2))
  have "replaceAll (l @ (K @ r)) K (the (lookup WORD_MAP K))
      = replaceAll l K (the (lookup WORD_MAP K)) @ replaceAll (K @ r) K (the (lookup WORD_MAP K))"
    using k assms(2) by (intro replaceAll_append) auto
  then show ?thesis
    using k by (simp add: applyKey_replaceAll replaceAll_head)
qed

lemma startsWith_nth: "startsWith s k \<Longrightarrow> i < length k \<Longrightarrow> s ! i = k ! i"
  by (auto simp: startsWith_iff nth_append)

text \<open>The keys tried after \<open>K\<close> do not touch its value, which has no key character.\<close>

lemma keys_after:
  assumes "set ks \<subseteq> set WORD_MAP_KEYS" "m \<noteq> []"
    and "\<forall>c \<in> set m. c < 128 \<or> (0xAC00 \<le> c \<and> c \<le> 0xD7A3)"
  shows "foldl applyKey (l @ m @ r) ks = foldl applyKey l ks @ m @ foldl applyKey r ks"
  using assms(1)
proof (induction ks arbitrary: l r)
  case Nil
  then show ?case by simp
next
  case (Cons k ks)
  have kk: "k \<in> set WORD_MAP_KEYS" using Cons.prems by simp
  have kc: "\<forall>c \<in> set k. \<not> (c < 128 \<or> (0xAC00 \<le> c \<and> c \<le> 0xD7A3))"
    using kk by (rule key_chars)
  have "\<forall>p < length l + length m. startsWith (drop p (l @ m @ r)) k \<longrightarrow> p + length k \<le> length l"
  proof (intro allI impI, rule ccontr)
    fix p
    assume p: "p < length l + length m" and occ: "startsWith (drop p (l @ m @ r)) k"
      and "\<not> p + length k \<le> length l"
    then have ov: "length l < p + length k" by simp
    define q where "q = max p (length l)"
    have "k \<noteq> []" using kk by (rule key_lookup(2))
    then have q: "p \<le> q" "q < p + length k" "length l \<le> q" "q < length l + length m"
      using p ov assms(2) by (auto simp: q_def)
    have "drop p (l @ m @ r) ! (q - p) = k ! (q - p)"
      using occ q by (intro startsWith_nth) auto
    moreover have "drop p (l @ m @ r) ! (q - p) = (l @ m @ r) ! q"
      using q p by (subst nth_drop) auto
    moreover have "(l @ m @ r) ! q = m ! (q - length l)"
    proof -
      have "\<not> q < length l" "q - length l < length m"
        using q by linarith+
      then show ?thesis by (simp add: nth_append)
    qed
    moreover have "m ! (q - length l) \<in> set m" "k ! (q - p) \<in> set k"
    proof -
      have "q - length l < length m" "q - p < length k"
        using q by linarith+
      then show "m ! (q - length l) \<in> set m" "k ! (q - p) \<in> set k"
        by simp_all
    qed
    ultimately show False
      using kc assms(3) by metis
  qed
  then have "applyKey (l @ m @ r) k = applyKey l k @ m @ applyKey r k"
    using kk by (intro applyKey_middle)
  then show ?case
    using Cons.IH [of "applyKey l k" "applyKey r k"] Cons.prems by simp
qed

lemma insertSorted_filter:
  "filter (\<lambda>k. length k = n) (insertSorted byLength a ys)
   = (if length a = n then a # filter (\<lambda>k. length k = n) ys else filter (\<lambda>k. length k = n) ys)"
  by (induction ys) (auto simp: byLength_def)

lemma stableSort_filter:
  "filter (\<lambda>k. length k = n) (stableSort byLength xs) = filter (\<lambda>k. length k = n) xs"
  by (induction xs) (simp_all add: stableSort_def insertSorted_filter)

lemma WORD_MAP_KEYS_stable:
  "filter (\<lambda>k. length k = n) WORD_MAP_KEYS = filter (\<lambda>k. length k = n) (map fst WORD_MAP)"
  by (simp add: WORD_MAP_KEYS_def stableSort_filter)

lemma keys_around:
  assumes "K \<in> set WORD_MAP_KEYS"
  shows "WORD_MAP_KEYS
         = takeWhile (\<lambda>k. k \<noteq> K) WORD_MAP_KEYS @ K # tl (dropWhile (\<lambda>k. k \<noteq> K) WORD_MAP_KEYS)"
proof -
  have ne: "dropWhile (\<lambda>k. k \<noteq> K) WORD_MAP_KEYS \<noteq> []"
    using assms by (simp add: dropWhile_eq_Nil_conv)
  then have "hd (dropWhile (\<lambda>k. k \<noteq> K) WORD_MAP_KEYS) = K"
    using hd_dropWhile [of "\<lambda>k. k \<noteq> K" WORD_MAP_KEYS] by simp
  with ne have "dropWhile (\<lambda>k. k \<noteq> K) WORD_MAP_KEYS
      = K # tl (dropWhile (\<lambda>k. k \<noteq> K) WORD_MAP_KEYS)"
    by (metis list.collapse)
  then show ?thesis
    by (metis takeWhile_dropWhile_id)
qed

lemma applyDictionary_occurrence:
  assumes "K1 \<in> set WORD_MAP_KEYS" "K2 \<in> set WORD_MAP_KEYS" "includesStr K1 K2" "K2 \<noteq> K1"
    and "\<forall>k \<in> set (takeWhile (\<lambda>k. k \<noteq> K1) WORD_MAP_KEYS). \<forall>p < length l + length K1.
           startsWith (drop p (l @ K1 @ r)) k \<longrightarrow> p + length k \<le> length l"
    and "\<forall>p < length l. startsWith (drop p (l @ K1 @ r)) K1 \<longrightarrow> p + length K1 \<le> length l"
  shows "K2 \<notin> set (takeWhile (\<lambda>k. k \<noteq> K1) WORD_MAP_KEYS)"
    and "applyDictionary (l @ K1 @ r)
         = applyDictionary l @ the (lookup WORD_MAP K1) @ applyDictionary r"
proof -
  define pre where "pre = takeWhile (\<lambda>k. k \<noteq> K1) WORD_MAP_KEYS"
  define post where "post = tl (dropWhile (\<lambda>k. k \<noteq> K1) WORD_MAP_KEYS)"
  have keys: "WORD_MAP_KEYS = pre @ K1 # post"
    unfolding pre_def post_def using assms(1) by (rule keys_around)
  have long: "2 < length K1"
    using assms(1-4) by (rule key_with_subkey_long)
  have longer: "\<forall>k \<in> set pre. length K1 \<le> length k"
    using keys by (rule sorted_prefix_longer)
  have sub: "set pre \<subseteq> set WORD_MAP_KEYS" "set post \<subseteq> set WORD_MAP_KEYS"
    using keys_split_set [OF keys] by auto
  have "length K2 < length K1"
    using includesStr_length [OF assms(3)] includesStr_same_length [OF assms(3)] assms(4)
    by (cases "length K1 \<le> length K2") auto
  with longer show "K2 \<notin> set (takeWhile (\<lambda>k. k \<noteq> K1) WORD_MAP_KEYS)"
    unfolding pre_def [symmetric] by auto
  have dict: "applyDictionary t = foldl applyKey (applyKey (foldl applyKey t pre) K1) post" for t
    unfolding applyDictionary_def keys by simp
  let ?l = "foldl applyKey l pre" and ?r = "foldl applyKey r pre"
  have before: "foldl applyKey (l @ K1 @ r) pre = ?l @ K1 @ ?r
       \<and> (\<forall>p < length ?l. startsWith (drop p (?l @ K1 @ ?r)) K1 \<longrightarrow> p + length K1 \<le> length ?l)"
  proof (rule keys_before [of pre pre])
    show "\<forall>k \<in> set pre. 2 < length k"
      using longer long by auto
    show "\<forall>k \<in> set pre. \<forall>p < length l + length K1.
           startsWith (drop p (l @ K1 @ r)) k \<longrightarrow> p + length k \<le> length l"
      using assms(5) unfolding pre_def .
  qed (use sub assms(1,6) in auto)
  then have at: "applyKey (foldl applyKey (l @ K1 @ r) pre) K1
      = applyKey ?l K1 @ the (lookup WORD_MAP K1) @ applyKey ?r K1"
    using applyKey_occurrence [OF assms(1), of ?l ?r] by simp
  have "foldl applyKey (applyKey ?l K1 @ the (lookup WORD_MAP K1) @ applyKey ?r K1) post
      = foldl applyKey (applyKey ?l K1) post @ the (lookup WORD_MAP K1)
          @ foldl applyKey (applyKey ?r K1) post"
    using sub(2) long_key_value [OF assms(1) long] value_chars [OF assms(1)]
    by (rule keys_after)
  then show "applyDictionary (l @ K1 @ r)
         = applyDictionary l @ the (lookup WORD_MAP K1) @ applyDictionary r"
    by (simp add: dict at)
qed

text \<open>
  Claim C3, as the code has it.  The keys are applied by decreasing length, keys of one
  length in the order of the dictionary, each with a global replacement against the string
  as the earlier keys left it.  For two keys \<open>K1\<close> and \<open>K2\<close>, \<open>K2\<close> a proper substring of \<open>K1\<close>,
  \<open>K2\<close> is tried after \<open>K1\<close>; and for an occurrence of \<open>K1\<close> in the input that no occurrence
  of a key tried before \<open>K1\<close> overlaps, nor an occurrence of \<open>K1\<close> itself that starts further
  left, the output has the value of \<open>K1\<close> in the place of that occurrence, between the
  outputs for the text on its left and for the text on its right.
\<close>

theorem dictionary_precedence:
  assumes "K1 \<in> set WORD_MAP_KEYS" "K2 \<in> set WORD_MAP_KEYS" "includesStr K1 K2" "K2 \<noteq> K1"
    and "\<forall>k \<in> set (takeWhile (\<lambda>k. k \<noteq> K1) WORD_MAP_KEYS). \<forall>p < length l + length K1.
           startsWith (drop p (l @ K1 @ r)) k \<longrightarrow> p + length k \<le> length l"
    and "\<forall>p < length l. startsWith (drop p (l @ K1 @ r)) K1 \<longrightarrow> p + length K1 \<le> length l"
  shows "sorted_wrt (\<lambda>a b. length b \<le> length a) WORD_MAP_KEYS
       \<and> (\<forall>n. filter (\<lambda>k. length k = n) WORD_MAP_KEYS
                = filter (\<lambda>k. length k = n) (map fst WORD_MAP))
       \<and> K2 \<notin> set (takeWhile (\<lambda>k. k \<noteq> K1) WORD_MAP_KEYS)
       \<and> applyDictionary (l @ K1 @ r)
           = applyDictionary l @ the (lookup WORD_MAP K1) @ applyDictionary r"
  using WORD_MAP_KEYS_sorted WORD_MAP_KEYS_stable applyDictionary_occurrence [OF assms]
  by blast

theorem dictionary_precedence_witness:
  "applyDictionary ([0x6E0B, 0x8C37, 0x99C5, 0x3068] @ [0x65B0, 0x5BBF, 0x99C5] @ [])
     = [0xC2DC, 0xBD80, 0xC57C, 0xC5ED, 0x3068] @ [0xC2E0, 0xC8FC, 0xCFE0, 0xC5ED] @ []"
proof -
  let ?l = "[0x6E0B, 0x8C37, 0x99C5, 0x3068] :: jsstring"
  let ?K1 = "[0x65B0, 0x5BBF, 0x99C5] :: jsstring"
  let ?K2 = "[0x65B0, 0x5BBF] :: jsstring"
  have keys: "?K1 \<in> set WORD_MAP_KEYS" "?K2 \<in> set WORD_MAP_KEYS"
    by (simp_all add: WORD_MAP_KEYS_eq)
  have sub: "includesStr ?K1 ?K2" "?K2 \<noteq> ?K1"
    by simp_all
  have "list_all (\<lambda>k. list_all (\<lambda>p. \<not> startsWith (drop p (?l @ ?K1 @ [])) k \<or> p + length k \<le> 4)
          [0..<7]) (takeWhile (\<lambda>k. k \<noteq> ?K1) WORD_MAP_KEYS)"
    by code_simp
  then have "\<forall>k \<in> set (takeWhile (\<lambda>k. k \<noteq> ?K1) WORD_MAP_KEYS). \<forall>p < 7.
      startsWith (drop p (?l @ ?K1 @ [])) k \<longrightarrow> p + length k \<le> 4"
    unfolding list_all_iff by auto
  moreover have len: "length ?l + length ?K1 = 7" "length ?l = 4"
    by simp_all
  ultimately have h1: "\<forall>k \<in> set (takeWhile (\<lambda>k. k \<noteq> ?K1) WORD_MAP_KEYS). \<forall>p < length ?l + length ?K1.
      startsWith (drop p (?l @ ?K1 @ [])) k \<longrightarrow> p + length k \<le> length ?l"
    by (simp only:)
  have "list_all (\<lambda>p. \<not> startsWith (drop p (?l @ ?K1 @ [])) ?K1 \<or> p + length ?K1 \<le> 4) [0..<4]"
    by code_simp
  then have "\<forall>p < 4. startsWith (drop p (?l @ ?K1 @ [])) ?K1 \<longrightarrow> p + length ?K1 \<le> 4"
    unfolding list_all_iff by auto
  then have h2: "\<forall>p < length ?l. startsWith (drop p (?l @ ?K1 @ [])) ?K1 \<longrightarrow> p + length ?K1 \<le> length ?l"
    using len by (simp only:)
  have v: "the (lookup WORD_MAP ?K1) = [0xC2E0, 0xC8FC, 0xCFE0, 0xC5ED]"
    "applyDictionary ?l = [0xC2DC, 0xBD80, 0xC57C, 0xC5ED, 0x3068]" "applyDictionary [] = []"
    by code_simp+
  show ?thesis
    using dictionary_precedence [OF keys sub h1 h2] v by simp
qed

text \<open>
  The claim C3 as it is stated, for every input that contains \<open>K1\<close>, fails when a longer key
  overlaps the occurrence of \<open>K1\<close>.  With \<open>K1\<close> = U+99C5 U+76F4 U+7D50 and \<open>K2\<close> = U+76F4
  U+7D50, the input U+843D U+5408 U+5357 U+9577 U+5D0E U+99C5 U+76F4 U+7D50 starts with a
  key of six characters that ends in the first character of \<open>K1\<close>; that key is replaced
  first, and the rest gets the value of \<open>K2\<close>: the output does not contain the value of
  \<open>K1\<close>.  It also fails for an occurrence of \<open>K1\<close> that an earlier occurrence of \<open>K1\<close>
  overlaps: in U+897F U+845B U+897F U+845B U+897F, with \<open>K1\<close> = U+897F U+845B U+897F and
  \<open>K2\<close> = U+845B U+897F, the occurrence of \<open>K1\<close> at the third character is not replaced;
  the output is the value of \<open>K1\<close> followed by the value of \<open>K2\<close>.
\<close>

theorem dictionary_precedence_counterexample:
  "[0x99C5, 0x76F4, 0x7D50] \<in> set WORD_MAP_KEYS \<and> [0x76F4, 0x7D50] \<in> set WORD_MAP_KEYS
   \<and> includesStr [0x99C5, 0x76F4, 0x7D50] [0x76F4, 0x7D50]
   \<and> includesStr [0x843D, 0x5408, 0x5357, 0x9577, 0x5D0E, 0x99C5, 0x76F4, 0x7D50] [0x99C5, 0x76F4, 0x7D50]
   \<and> lookup WORD_MAP [0x99C5, 0x76F4, 0x7D50] = Some [0xC5ED, 0x0020, 0xC9C1, 0xACB0]
   \<and> lookup WORD_MAP [0x76F4, 0x7D50] = Some [0xC9C1, 0xACB0]
   \<and> applyDictionary [0x843D, 0x5408, 0x5357, 0x9577, 0x5D0E, 0x99C5, 0x76F4, 0x7D50]
       = [0xC624, 0xCE58, 0xC544, 0xC774, 0x0020, 0xBBF8, 0xB098, 0xBBF8, 0xB098, 0xAC00, 0xC0AC,
          0xD0A4, 0xC5ED] @ [0xC9C1, 0xACB0]
   \<and> \<not> includesStr (applyDictionary [0x843D, 0x5408, 0x5357, 0x9577, 0x5D0E, 0x99C5, 0x76F4, 0x7D50])
          [0xC5ED, 0x0020, 0xC9C1, 0xACB0]
   \<and> [0x897F, 0x845B, 0x897F] \<in> set WORD_MAP_KEYS \<and> [0x845B, 0x897F] \<in> set WORD_MAP_KEYS
   \<and> startsWith (drop 2 [0x897F, 0x845B, 0x897F, 0x845B, 0x897F]) [0x897F, 0x845B, 0x897F]
   \<and> lookup WORD_MAP [0x897F, 0x845B, 0x897F] = Some [0xB2C8, 0xC2DC, 0xCE74, 0xC0AC, 0xC774]
   \<and> lookup WORD_MAP [0x845B, 0x897F] = Some [0xCE74, 0xC0AC, 0xC774]
   \<and> applyDictionary [0x897F, 0x845B, 0x897F, 0x845B, 0x897F]
       = [0xB2C8, 0xC2DC, 0xCE74, 0xC0AC, 0xC774] @ [0xCE74, 0xC0AC, 0xC774]"
  by code_simp

section \<open>Concrete inputs\<close>

text \<open>
  Claim C6 at the small tsu U+30C3, a key of \<open>KATAKANA_SINGLE\<close> whose value is the empty
  string: the test \<open>if (KATAKANA_SINGLE[char])\<close> is false for the empty string, so the
  character is not mapped to its value but falls through to the last branch and is
  emitted unchanged.
\<close>

theorem small_tsu_passes_through:
  "lookup KATAKANA_SINGLE [0x30C3] = Some [] \<and> transliterate [0x30C3] Ko = Some [0x30C3]"
  by code_simp

text \<open>
  The claim C7 as it is stated: the three characters U+6771 U+4EAC U+90FD are no key of
  the dictionary, and the dictionary stage leaves the third one as it is.
\<close>

theorem tokyo_to_counterexample:
  "lookup WORD_MAP [0x6771, 0x4EAC, 0x90FD] = None
   \<and> applyDictionary [0x6771, 0x4EAC, 0x90FD] = [0xB3C4, 0xCFC4, 0x90FD]"
  by code_simp

text \<open>
  Claim C7, as the code has it.  \<open>transliterate\<close> of U+6771 U+4EAC U+90FD for \<open>ko\<close> is
  U+B3C4 U+CFC4 U+B3C4: the dictionary replaces the key U+6771 U+4EAC of two characters,
  and the third character gets its reading from \<open>KANJI_MAP\<close>.
\<close>

theorem tokyo_to:
  "transliterate [0x6771, 0x4EAC, 0x90FD] Ko = Some [0xB3C4, 0xCFC4, 0xB3C4]
   \<and> lookup WORD_MAP [0x6771, 0x4EAC] = Some [0xB3C4, 0xCFC4]
   \<and> applyDictionary [0x6771, 0x4EAC, 0x90FD] = [0xB3C4, 0xCFC4] @ [0x90FD]
   \<and> lookup KANJI_MAP [0x90FD] = Some [0xB3C4]"
  by code_simp

text \<open>
  Claim C9.  \<open>transliterate(\<cdot>, "ko")\<close> is not idempotent: there is a string whose
  transliteration is changed by a second pass.  In U+6075 U+30FC U+6BD4 U+5BFF the first
  pass only drops the prolonged-sound marker, which leaves a key of the dictionary.
\<close>

theorem not_idempotent:
  "\<exists>x y z. transliterate x Ko = Some y \<and> transliterate y Ko = Some z \<and> z \<noteq> y"
proof -
  have "transliterate [0x6075, 0x30FC, 0x6BD4, 0x5BFF] Ko = Some [0x6075, 0x6BD4, 0x5BFF]"
    by code_simp
  moreover have "transliterate [0x6075, 0x6BD4, 0x5BFF] Ko = Some [0xC5D0, 0xBE44, 0xC2A4]"
    by code_simp
  moreover have "[0xC5D0, 0xBE44, 0xC2A4] \<noteq> [0x6075, 0x6BD4, 0x5BFF :: int]"
    by simp
  ultimately show ?thesis by blast
qed

end
